theory Spec2Isabelle
  imports Complex_Main
begin

section \<open>Snapshot time-point selection (disco/analysis/feeder_analysis/timepoint_selection.py)\<close>

text \<open>
  The module reads a circuit from the OpenDSS engine (PV systems, loads, load shapes),
  builds an aggregate profile in a pandas DataFrame, takes \<open>idxmax\<close>/\<open>idxmin\<close> of its
  columns and writes the candidates to a file. The embedding below follows the statements of
  \<open>create_loadshape_pmult_dataframe\<close> and \<open>get_snapshot_timepoint\<close>. The engine is a
  read-only table of shapes and devices; pandas is modelled as it behaves in the 1.x/2.x
  releases the module was written for.
\<close>

subsection \<open>Column values\<close>

text \<open>
  A float64 cell. Finite values are exact rationals (rounding and the sign of zero are not
  modelled: a zero is read as +0.0); the two infinities and NaN behave as in IEEE 754.
\<close>

datatype fval = NaN | NInf | Fin rat | PInf

fun fsgn :: "fval \<Rightarrow> int" where
  "fsgn NaN = 0"
| "fsgn NInf = - 1"
| "fsgn (Fin a) = (if a = 0 then 0 else if 0 < a then 1 else - 1)"
| "fsgn PInf = 1"

definition of_sign :: "int \<Rightarrow> fval" where
  "of_sign s = (if s = 0 then NaN else if 0 < s then PInf else NInf)"

fun fneg :: "fval \<Rightarrow> fval" where
  "fneg NaN = NaN"
| "fneg NInf = PInf"
| "fneg (Fin a) = Fin (- a)"
| "fneg PInf = NInf"

fun fmul :: "fval \<Rightarrow> fval \<Rightarrow> fval" where
  "fmul NaN b = NaN"
| "fmul a NaN = NaN"
| "fmul (Fin a) (Fin b) = Fin (a * b)"
| "fmul a b = of_sign (fsgn a * fsgn b)"

fun fadd :: "fval \<Rightarrow> fval \<Rightarrow> fval" where
  "fadd NaN b = NaN"
| "fadd a NaN = NaN"
| "fadd (Fin a) (Fin b) = Fin (a + b)"
| "fadd PInf NInf = NaN"
| "fadd NInf PInf = NaN"
| "fadd PInf b = PInf"
| "fadd a PInf = PInf"
| "fadd NInf b = NInf"
| "fadd a NInf = NInf"

definition fsub :: "fval \<Rightarrow> fval \<Rightarrow> fval" where
  "fsub a b = fadd a (fneg b)"

text \<open>numpy's true division: a zero divisor gives an infinity or NaN, and raises nothing.\<close>

fun fdiv :: "fval \<Rightarrow> fval \<Rightarrow> fval" where
  "fdiv NaN b = NaN"
| "fdiv a NaN = NaN"
| "fdiv (Fin a) (Fin b) = (if b = 0 then of_sign (fsgn (Fin a)) else Fin (a / b))"
| "fdiv (Fin a) b = Fin 0"
| "fdiv a (Fin b) = of_sign (fsgn a * (if b < 0 then - 1 else 1))"
| "fdiv a b = NaN"

text \<open>The IEEE comparisons: every comparison with NaN is false.\<close>

fun flt :: "fval \<Rightarrow> fval \<Rightarrow> bool" where
  "flt NaN b = False"
| "flt a NaN = False"
| "flt (Fin a) (Fin b) = (a < b)"
| "flt a NInf = False"
| "flt NInf b = True"
| "flt PInf b = False"
| "flt a PInf = True"

definition fle :: "fval \<Rightarrow> fval \<Rightarrow> bool" where
  "fle a b = (a \<noteq> NaN \<and> b \<noteq> NaN \<and> \<not> flt b a)"

subsection \<open>Series and their reductions\<close>

text \<open>
  Timestamps are naive datetimes, counted in microseconds from 1970-01-01T00:00. A Series is
  its index with its values, in index order.
\<close>

type_synonym tstamp = int
type_synonym series = "(tstamp \<times> fval) list"

datatype error =
    DSSException
  | AssertionError
  | KeyError
  | PandasError
  | AnalysisConfigurationException

text \<open>
  \<open>DSSException\<close>: raised by the engine for a shape name it does not have.
  \<open>PandasError\<close>: an exception raised inside pandas (ValueError "attempt to get argmax of an
  empty sequence", a length mismatch, a reindex on duplicate labels).
  \<open>AnalysisConfigurationException\<close> is the class of disco/exceptions.py; this module never
  raises it.
\<close>

text \<open>What \<open>idxmax\<close> returns: an index label, or NaN when every value is missing.\<close>

datatype cand = Time tstamp | Missing

definition fillna :: "fval \<Rightarrow> fval \<Rightarrow> fval" where
  "fillna d v = (if v = NaN then d else v)"

text \<open>numpy's \<open>argmax\<close>/\<open>argmin\<close>: the first position of the extreme value.\<close>

fun first_best :: "(fval \<Rightarrow> fval \<Rightarrow> bool) \<Rightarrow> tstamp \<times> fval \<Rightarrow> series \<Rightarrow> tstamp \<times> fval" where
  "first_best better b [] = b"
| "first_best better b (x # xs) = first_best better (if better (snd x) (snd b) then x else b) xs"

definition fill_series :: "fval \<Rightarrow> series \<Rightarrow> series" where
  "fill_series d s = map (\<lambda>(t, v). (t, fillna d v)) s"

text \<open>
  \<open>Series.idxmax()\<close> with \<open>skipna=True\<close> (pandas.core.nanops.nanargmax): the missing values
  are filled with -inf, the first position of the maximum is taken, and the answer is NaN when
  all values are missing. An empty series raises.
\<close>

definition idxmax :: "series \<Rightarrow> error + cand" where
  "idxmax s =
     (case fill_series NInf s of
        [] \<Rightarrow> Inl PandasError
      | x # xs \<Rightarrow>
          if list_all (\<lambda>p. snd p = NaN) s then Inr Missing
          else Inr (Time (fst (first_best (\<lambda>v b. flt b v) x xs))))"

definition idxmin :: "series \<Rightarrow> error + cand" where
  "idxmin s =
     (case fill_series PInf s of
        [] \<Rightarrow> Inl PandasError
      | x # xs \<Rightarrow>
          if list_all (\<lambda>p. snd p = NaN) s then Inr Missing
          else Inr (Time (fst (first_best (\<lambda>v b. flt v b) x xs))))"

subsection \<open>The engine's data\<close>

text \<open>
  A load shape as the engine returns it: \<open>dss.LoadShape.PMult()\<close>, \<open>SInterval()\<close> (as the
  \<open>timedelta\<close> made of it, in microseconds) and \<open>Npts()\<close>. A device is a PV system or a
  load: its name, its rating (\<open>Pmpp\<close> or \<open>kW\<close>, already a float) and the name of its
  \<open>yearly\<close> shape.
\<close>

record shape =
  PMult :: "fval list"
  SInterval :: nat
  Npts :: nat

record device =
  dev_name :: string
  rating :: fval
  yearly :: string

record circuit =
  PVsystems :: "device list"
  Loads :: "device list"
  LoadShapes :: "string \<Rightarrow> shape option"

subsection \<open>create_loadshape_pmult_dataframe\<close>

fun indices_loop :: "nat \<Rightarrow> tstamp \<Rightarrow> int \<Rightarrow> tstamp list" where
  "indices_loop 0 cur_time interval = []"
| "indices_loop (Suc n) cur_time interval = cur_time # indices_loop n (cur_time + interval) interval"

text \<open>
  \<open>pd.DataFrame(data, index=pd.DatetimeIndex(indices))\<close>: one column, named 0. With no
  data the frame has no column at all (the empty list below); data of another length than
  the index is refused by pandas.
\<close>

definition create_loadshape_pmult_dataframe :: "tstamp \<Rightarrow> shape \<Rightarrow> error + series" where
  "create_loadshape_pmult_dataframe start_time sh =
     (let data = PMult sh;
          indices = indices_loop (Npts sh) start_time (int (SInterval sh))
      in if data = [] then Inr []
         else if length data = length indices then Inr (zip indices data)
         else Inl PandasError)"

subsection \<open>The aggregate profile\<close>

record row =
  stamp :: tstamp
  Load :: fval
  PV :: fval

record drow = row +
  PV_to_Load_Ratio :: fval
  PV_minus_Load :: fval

datatype col = ColPV | ColLoad

fun get_col :: "col \<Rightarrow> row \<Rightarrow> fval" where
  "get_col ColPV r = PV r"
| "get_col ColLoad r = Load r"

fun set_col :: "col \<Rightarrow> fval \<Rightarrow> row \<Rightarrow> row" where
  "set_col ColPV v r = r\<lparr>PV := v\<rparr>"
| "set_col ColLoad v r = r\<lparr>Load := v\<rparr>"

text \<open>\<open>(shapes[profile_name] * rating)[0]\<close>: column 0 of the scaled frame.\<close>

definition scaled_column :: "series \<Rightarrow> fval \<Rightarrow> error + series" where
  "scaled_column df r = (if df = [] then Inl KeyError else Inr (map (\<lambda>(t, v). (t, fmul v r)) df))"

text \<open>
  \<open>aggregate_profiles[c] = s\<close> on the frame without rows: the frame takes the index of
  \<open>s\<close>, and the other column is NaN.
\<close>

definition set_first :: "col \<Rightarrow> series \<Rightarrow> row list" where
  "set_first c s = map (\<lambda>(t, v). set_col c v \<lparr>stamp = t, Load = NaN, PV = NaN\<rparr>) s"

text \<open>\<open>aggregate_profiles.replace(np.nan, 0)\<close>\<close>

definition replace_nan :: "row list \<Rightarrow> row list" where
  "replace_nan fr = map (\<lambda>r. r\<lparr>Load := fillna (Fin 0) (Load r), PV := fillna (Fin 0) (PV r)\<rparr>) fr"

definition lookup_na :: "series \<Rightarrow> tstamp \<Rightarrow> fval" where
  "lookup_na s t = (case map_of s t of None \<Rightarrow> NaN | Some v \<Rightarrow> v)"

text \<open>
  \<open>aggregate_profiles[c] = aggregate_profiles[c] + s\<close>. With equal indexes the sum is
  elementwise. Otherwise pandas aligns the two on their labels and the assignment reads the
  sum back at the frame's labels: a label \<open>s\<close> does not have gives NaN, and a sum with
  duplicate labels that is not on the frame's own index cannot be read back.
\<close>

definition add_aligned :: "col \<Rightarrow> row list \<Rightarrow> series \<Rightarrow> error + row list" where
  "add_aligned c fr s =
     (let idx = map stamp fr; sidx = map fst s
      in if idx = sidx then Inr (map (\<lambda>(r, p). set_col c (fadd (get_col c r) (snd p)) r) (zip fr s))
         else if distinct sidx \<and> (distinct idx \<or> list_all (\<lambda>t. t \<in> set idx) sidx)
           then Inr (map (\<lambda>r. set_col c (fadd (get_col c r) (lookup_na s (stamp r))) r) fr)
         else Inl PandasError)"

text \<open>
  The two device loops of \<open>get_snapshot_timepoint\<close> (over \<open>pv_systems\<close> into column PV,
  over \<open>loads\<close> into column Load) are the same statements up to the column, and the NaN
  scrub that only the PV loop applies after the first assignment. \<open>shapes\<close> is the per-shape
  cache (\<open>pv_shapes\<close>, \<open>load_shapes\<close>).
\<close>

definition materialize ::
  "(string \<Rightarrow> shape option) \<Rightarrow> tstamp \<Rightarrow> string \<Rightarrow> (string \<Rightarrow> series option)
     \<Rightarrow> error + (string \<Rightarrow> series option)" where
  "materialize dss start_time profile_name shapes =
     (case dss profile_name of
        None \<Rightarrow> Inl DSSException
      | Some sh \<Rightarrow>
          (case shapes profile_name of
             Some df \<Rightarrow> Inr shapes
           | None \<Rightarrow>
               (case create_loadshape_pmult_dataframe start_time sh of
                  Inl e \<Rightarrow> Inl e
                | Inr df \<Rightarrow> Inr (shapes(profile_name \<mapsto> df)))))"

definition accumulate_step :: "col \<Rightarrow> row list \<Rightarrow> series \<Rightarrow> error + row list" where
  "accumulate_step c fr s =
     (if length fr = 0
      then Inr (if c = ColPV then replace_nan (set_first c s) else set_first c s)
      else add_aligned c fr s)"

fun accumulate ::
  "(string \<Rightarrow> shape option) \<Rightarrow> tstamp \<Rightarrow> col \<Rightarrow> device list \<Rightarrow> (string \<Rightarrow> series option)
     \<Rightarrow> row list \<Rightarrow> error + row list" where
  "accumulate dss start_time c [] shapes fr = Inr fr"
| "accumulate dss start_time c (d # ds) shapes fr =
     (case materialize dss start_time (yearly d) shapes of
        Inl e \<Rightarrow> Inl e
      | Inr shapes' \<Rightarrow>
          (case shapes' (yearly d) of
             None \<Rightarrow> Inl KeyError
           | Some df \<Rightarrow>
               (case scaled_column df (rating d) of
                  Inl e \<Rightarrow> Inl e
                | Inr s \<Rightarrow>
                    (case accumulate_step c fr s of
                       Inl e \<Rightarrow> Inl e
                     | Inr fr' \<Rightarrow> accumulate dss start_time c ds shapes' fr'))))"

text \<open>
  Lines 80 to 110: the frame starts without rows, the PV loop runs with an empty cache, the
  cache is dropped, and the load loop runs with an empty cache of its own.
\<close>

definition aggregate_profiles :: "circuit \<Rightarrow> tstamp \<Rightarrow> error + row list" where
  "aggregate_profiles c start_time =
     (case accumulate (LoadShapes c) start_time ColPV (PVsystems c) Map.empty [] of
        Inl e \<Rightarrow> Inl e
      | Inr fr \<Rightarrow> accumulate (LoadShapes c) start_time ColLoad (Loads c) Map.empty fr)"

subsection \<open>Candidate time points\<close>

text \<open>
  \<open>between_time('8:00', '17:00')\<close> keeps the rows whose time of day is from 08:00 to 17:00,
  both ends included; pandas compares the microsecond of the day.
\<close>

definition time_of_day :: "tstamp \<Rightarrow> int" where
  "time_of_day t = t mod 86400000000"

definition in_window :: "tstamp \<Rightarrow> bool" where
  "in_window t = (28800000000 \<le> time_of_day t \<and> time_of_day t \<le> 61200000000)"

definition between_time :: "'a row_scheme list \<Rightarrow> 'a row_scheme list" where
  "between_time fr = filter (\<lambda>r. in_window (stamp r)) fr"

definition column :: "('a row_scheme \<Rightarrow> fval) \<Rightarrow> 'a row_scheme list \<Rightarrow> series" where
  "column f fr = map (\<lambda>r. (stamp r, f r)) fr"

text \<open>Lines 112 and 113: the two derived columns.\<close>

definition add_derived :: "row list \<Rightarrow> drow list" where
  "add_derived fr =
     map (\<lambda>r. \<lparr>stamp = stamp r, Load = Load r, PV = PV r,
               PV_to_Load_Ratio = fdiv (PV r) (Load r),
               PV_minus_Load = fsub (PV r) (Load r)\<rparr>) fr"

text \<open>
  Lines 111 to 126, in the order of the statements; the first reduction that raises ends the
  call. \<open>pv\<close> is the truth value of \<open>pv_systems\<close>. The result is the \<open>timepoints\<close> frame:
  its row labels with the one cell of each row.
\<close>

definition timepoints_of :: "bool \<Rightarrow> row list \<Rightarrow> error + (string \<times> cand) list" where
  "timepoints_of pv fr =
     (case idxmax (column Load fr) of Inl e \<Rightarrow> Inl e | Inr max_load \<Rightarrow>
      (case (if pv
             then (let day = between_time (add_derived fr) in
                   case idxmax (column PV_to_Load_Ratio day) of Inl e \<Rightarrow> Inl e | Inr t_ratio \<Rightarrow>
                   (case idxmax (column PV_minus_Load day) of Inl e \<Rightarrow> Inl e | Inr t_minus \<Rightarrow>
                   (case idxmax (column PV day) of Inl e \<Rightarrow> Inl e | Inr t_max_pv \<Rightarrow>
                      Inr [(''Max PV to Load Ratio'', t_ratio), (''Max PV minus Load'', t_minus),
                           (''Max PV'', t_max_pv)])))
             else Inr [])
       of Inl e \<Rightarrow> Inl e | Inr pv_rows \<Rightarrow>
      (case idxmin (column Load fr) of Inl e \<Rightarrow> Inl e | Inr min_load \<Rightarrow>
      (case idxmin (column Load (between_time fr)) of Inl e \<Rightarrow> Inl e | Inr min_day \<Rightarrow>
         Inr ([(''Max Load'', max_load)] @ pv_rows
              @ [(''Min Load'', min_load), (''Min Daytime Load'', min_day)])))))"

subsection \<open>get_snapshot_timepoint\<close>

datatype SnapshotTimePointSelectionMode =
    MAX_PV_LOAD_RATIO
  | MAX_LOAD
  | DAYTIME_MIN_LOAD
  | MAX_PV_MINUS_LOAD
  | NONE

fun mode_value :: "SnapshotTimePointSelectionMode \<Rightarrow> string" where
  "mode_value MAX_PV_LOAD_RATIO = ''max_pv_load_ratio''"
| "mode_value MAX_LOAD = ''max_load''"
| "mode_value DAYTIME_MIN_LOAD = ''daytime_min_load''"
| "mode_value MAX_PV_MINUS_LOAD = ''pv_minus_load''"
| "mode_value NONE = ''none''"

datatype log_entry =
    No_PVSystems_are_present
  | Changed_mode_to string
  | No_Loads_are_present
  | Time_points "(string \<times> cand) list"

text \<open>Lines 63 to 67: the mode after the check for PV systems, and what was logged.\<close>

definition resolve_mode ::
  "SnapshotTimePointSelectionMode \<Rightarrow> device list
     \<Rightarrow> SnapshotTimePointSelectionMode \<times> log_entry list" where
  "resolve_mode mode pv_systems =
     (if pv_systems = []
      then (if mode \<noteq> MAX_LOAD
            then (MAX_LOAD, [No_PVSystems_are_present, Changed_mode_to (mode_value MAX_LOAD)])
            else (mode, [No_PVSystems_are_present]))
      else (mode, []))"

text \<open>Lines 68 to 77.\<close>

fun column_of_mode :: "SnapshotTimePointSelectionMode \<Rightarrow> error + string" where
  "column_of_mode MAX_LOAD = Inr ''Max Load''"
| "column_of_mode MAX_PV_LOAD_RATIO = Inr ''Max PV to Load Ratio''"
| "column_of_mode DAYTIME_MIN_LOAD = Inr ''Min Daytime Load''"
| "column_of_mode MAX_PV_MINUS_LOAD = Inr ''Max PV minus Load''"
| "column_of_mode NONE = Inl AssertionError"

text \<open>
  What \<open>dump_data\<close> receives: \<open>timepoints.astype(str).to_dict(orient='index')\<close>, a
  dictionary from each row label to the dictionary of that row's cells by column name.
  \<open>JStr c\<close> is the string pandas renders for the cell \<open>c\<close>.
\<close>

datatype json = JStr cand | JObj "(string \<times> json) list"

definition to_dict_index :: "(string \<times> cand) list \<Rightarrow> json" where
  "to_dict_index tps = JObj (map (\<lambda>(k, c). (k, JObj [(''Timepoints'', JStr c)])) tps)"

record dump =
  dump_data :: json
  dump_filename :: string
  dump_indent :: nat

text \<open>
  The effects of a call and its end: the log, the file written (if any), and the exception
  or the returned cell \<open>timepoints.loc[column][0]\<close> (what \<open>to_pydatetime\<close> makes of a
  missing cell is left open). \<open>start_time\<close> is \<open>INPUT_SETTINGS.loadshape_start_time\<close>.
\<close>

record outcome =
  log :: "log_entry list"
  written :: "dump option"
  returned :: "error + cand"

definition get_snapshot_timepoint ::
  "circuit \<Rightarrow> tstamp \<Rightarrow> SnapshotTimePointSelectionMode \<Rightarrow> string \<Rightarrow> outcome" where
  "get_snapshot_timepoint dss start_time mode output_filename =
     (let pv_systems = PVsystems dss;
          (mode', log1) = resolve_mode mode pv_systems
      in case column_of_mode mode' of
           Inl e \<Rightarrow> \<lparr>log = log1, written = None, returned = Inl e\<rparr>
         | Inr column_name \<Rightarrow>
        (case accumulate (LoadShapes dss) start_time ColPV pv_systems Map.empty [] of
           Inl e \<Rightarrow> \<lparr>log = log1, written = None, returned = Inl e\<rparr>
         | Inr fr1 \<Rightarrow>
        (let loads = Loads dss;
             log2 = log1 @ (if loads = [] then [No_Loads_are_present] else [])
         in case accumulate (LoadShapes dss) start_time ColLoad loads Map.empty fr1 of
              Inl e \<Rightarrow> \<lparr>log = log2, written = None, returned = Inl e\<rparr>
            | Inr fr \<Rightarrow>
           (case timepoints_of (pv_systems \<noteq> []) fr of
              Inl e \<Rightarrow> \<lparr>log = log2, written = None, returned = Inl e\<rparr>
            | Inr tps \<Rightarrow>
                \<lparr>log = log2 @ [Time_points tps],
                 written = Some \<lparr>dump_data = to_dict_index tps,
                                 dump_filename = output_filename, dump_indent = 2\<rparr>,
                 returned = (case map_of tps column_name of
                               None \<Rightarrow> Inl KeyError
                             | Some c \<Rightarrow> Inr c)\<rparr>))))"

subsection \<open>Aggregation without the cache\<close>

text \<open>
  The comparison model for the cache: every device materializes its shape from the engine,
  and nothing is kept from one device to the next.
\<close>

fun accumulate_uncached ::
  "(string \<Rightarrow> shape option) \<Rightarrow> tstamp \<Rightarrow> col \<Rightarrow> device list \<Rightarrow> row list \<Rightarrow> error + row list" where
  "accumulate_uncached dss start_time c [] fr = Inr fr"
| "accumulate_uncached dss start_time c (d # ds) fr =
     (case dss (yearly d) of
        None \<Rightarrow> Inl DSSException
      | Some sh \<Rightarrow>
          (case create_loadshape_pmult_dataframe start_time sh of
             Inl e \<Rightarrow> Inl e
           | Inr df \<Rightarrow>
               (case scaled_column df (rating d) of
                  Inl e \<Rightarrow> Inl e
                | Inr s \<Rightarrow>
                    (case accumulate_step c fr s of
                       Inl e \<Rightarrow> Inl e
                     | Inr fr' \<Rightarrow> accumulate_uncached dss start_time c ds fr'))))"

definition aggregate_profiles_uncached :: "circuit \<Rightarrow> tstamp \<Rightarrow> error + row list" where
  "aggregate_profiles_uncached c start_time =
     (case accumulate_uncached (LoadShapes c) start_time ColPV (PVsystems c) [] of
        Inl e \<Rightarrow> Inl e
      | Inr fr \<Rightarrow> accumulate_uncached (LoadShapes c) start_time ColLoad (Loads c) fr)"

subsection \<open>Example circuits\<close>

text \<open>
  The inputs the theorems below are evaluated at. \<open>at_hour h\<close> is 2020-01-01 at \<open>h\<close> o'clock
  (18262 days after 1970-01-01). Shape \<open>S1\<close> is [0.2, 0.8, 1.0, 0.3], hourly; shape \<open>S2\<close>
  is [0.5, 0, 0.5, 0.5], hourly.
\<close>

definition at_hour :: "int \<Rightarrow> tstamp" where
  "at_hour h = 18262 * 86400000000 + h * 3600000000"

definition shape_S1 :: shape where
  "shape_S1 = \<lparr>PMult = [Fin (2 / 10), Fin (8 / 10), Fin 1, Fin (3 / 10)],
                SInterval = 3600000000, Npts = 4\<rparr>"

definition shape_S2 :: shape where
  "shape_S2 = \<lparr>PMult = [Fin (5 / 10), Fin 0, Fin (5 / 10), Fin (5 / 10)],
                SInterval = 3600000000, Npts = 4\<rparr>"

definition pv1 :: device where
  "pv1 = \<lparr>dev_name = ''pv1'', rating = Fin 5, yearly = ''S1''\<rparr>"

definition load1 :: device where
  "load1 = \<lparr>dev_name = ''load1'', rating = Fin 10, yearly = ''S1''\<rparr>"

definition load2 :: device where
  "load2 = \<lparr>dev_name = ''load2'', rating = Fin 10, yearly = ''S2''\<rparr>"

definition scenario_circuit :: circuit where
  "scenario_circuit =
     \<lparr>PVsystems = [pv1], Loads = [load1], LoadShapes = [''S1'' \<mapsto> shape_S1]\<rparr>"

definition loads_only_circuit :: circuit where
  "loads_only_circuit =
     \<lparr>PVsystems = [], Loads = [load1], LoadShapes = [''S1'' \<mapsto> shape_S1]\<rparr>"

definition pv_only_circuit :: circuit where
  "pv_only_circuit =
     \<lparr>PVsystems = [pv1], Loads = [], LoadShapes = [''S1'' \<mapsto> shape_S1]\<rparr>"

definition zero_load_circuit :: circuit where
  "zero_load_circuit =
     \<lparr>PVsystems = [pv1], Loads = [load2],
      LoadShapes = [''S1'' \<mapsto> shape_S1, ''S2'' \<mapsto> shape_S2]\<rparr>"

text \<open>
  The spec's scenario without PV systems: one load (kW 1) on shape \<open>S3\<close> = [5, 3, 9, 1],
  hourly, so that the Load series is [5, 3, 9, 1].
\<close>

definition shape_S3 :: shape where
  "shape_S3 = \<lparr>PMult = [Fin 5, Fin 3, Fin 9, Fin 1], SInterval = 3600000000, Npts = 4\<rparr>"

definition load3 :: device where
  "load3 = \<lparr>dev_name = ''load3'', rating = Fin 1, yearly = ''S3''\<rparr>"

definition night_loads_circuit :: circuit where
  "night_loads_circuit =
     \<lparr>PVsystems = [], Loads = [load3], LoadShapes = [''S3'' \<mapsto> shape_S3]\<rparr>"

text \<open>The aggregate profile of \<open>scenario_circuit\<close> from midnight.\<close>

definition scenario_frame :: "row list" where
  "scenario_frame =
     [\<lparr>stamp = at_hour 0, Load = Fin 2, PV = Fin 1\<rparr>,
      \<lparr>stamp = at_hour 1, Load = Fin 8, PV = Fin 4\<rparr>,
      \<lparr>stamp = at_hour 2, Load = Fin 10, PV = Fin 5\<rparr>,
      \<lparr>stamp = at_hour 3, Load = Fin 3, PV = Fin (15 / 10)\<rparr>]"

text \<open>
  A profile from 07:00 to 10:00: the largest PV value is before the window opens, and the
  load is zero at 09:00.
\<close>

definition dawn_frame :: "row list" where
  "dawn_frame =
     [\<lparr>stamp = at_hour 7, Load = Fin 1, PV = Fin 100\<rparr>,
      \<lparr>stamp = at_hour 8, Load = Fin 5, PV = Fin 1\<rparr>,
      \<lparr>stamp = at_hour 9, Load = Fin 0, PV = Fin 4\<rparr>,
      \<lparr>stamp = at_hour 10, Load = Fin 5, PV = Fin 4\<rparr>]"

section \<open>Properties\<close>

subsection \<open>The order of the values and the reductions\<close>

lemma flt_irrefl: "\<not> flt a a"
  by (cases a) auto

lemma flt_trans: "flt a b \<Longrightarrow> flt b c \<Longrightarrow> flt a c"
  by (cases a; cases b; cases c) auto

lemma flt_total: "a \<noteq> NaN \<Longrightarrow> b \<noteq> NaN \<Longrightarrow> flt a b \<or> a = b \<or> flt b a"
  by (cases a; cases b) auto

lemma flt_not_NaN: "flt a b \<Longrightarrow> a \<noteq> NaN \<and> b \<noteq> NaN"
  by (cases a; cases b) auto

lemma first_best_gen:
  assumes tr0: "\<forall>a b c. R a b \<longrightarrow> R b c \<longrightarrow> R a c"
    and irr0: "\<forall>a. \<not> R a a"
    and tot0: "\<forall>a b. a \<noteq> NaN \<longrightarrow> b \<noteq> NaN \<longrightarrow> R a b \<or> a = b \<or> R b a"
    and "snd b \<noteq> NaN" and "\<forall>x\<in>set xs. snd x \<noteq> NaN"
  shows "(first_best (\<lambda>v w. R w v) b xs = b \<and> (\<forall>x\<in>set xs. \<not> R (snd b) (snd x)))
       \<or> (\<exists>i<length xs. first_best (\<lambda>v w. R w v) b xs = xs ! i \<and> R (snd b) (snd (xs ! i))
             \<and> (\<forall>j<i. R (snd (xs ! j)) (snd (xs ! i)))
             \<and> (\<forall>j<length xs. \<not> R (snd (xs ! i)) (snd (xs ! j))))"
  using assms(4,5)
proof (induction xs arbitrary: b)
  case Nil
  then show ?case by simp
next
  case (Cons x xs)
  let ?F = "first_best (\<lambda>v w. R w v)"
  have tr: "\<And>a b c. R a b \<Longrightarrow> R b c \<Longrightarrow> R a c" using tr0 by blast
  have irr: "\<And>a. \<not> R a a" using irr0 by blast
  have tot: "\<And>a b. a \<noteq> NaN \<Longrightarrow> b \<noteq> NaN \<Longrightarrow> R a b \<or> a = b \<or> R b a"
    using tot0 by blast
  have xs: "\<forall>y\<in>set xs. snd y \<noteq> NaN" and x: "snd x \<noteq> NaN" using Cons.prems by simp_all
  show ?case
  proof (cases "R (snd b) (snd x)")
    case True
    then have fb: "?F b (x # xs) = ?F x xs" by simp
    from Cons.IH[OF x xs] show ?thesis
    proof
      assume a: "?F x xs = x \<and> (\<forall>y\<in>set xs. \<not> R (snd x) (snd y))"
      have "\<forall>j<length (x # xs). \<not> R (snd x) (snd ((x # xs) ! j))"
        using a irr by (auto simp: nth_Cons')
      with a True fb have "0 < length (x # xs) \<and> ?F b (x # xs) = (x # xs) ! 0
          \<and> R (snd b) (snd ((x # xs) ! 0)) \<and> (\<forall>j<0. R (snd ((x # xs) ! j)) (snd ((x # xs) ! 0)))
          \<and> (\<forall>j<length (x # xs). \<not> R (snd ((x # xs) ! 0)) (snd ((x # xs) ! j)))"
        by simp
      then show ?thesis by blast
    next
      assume "\<exists>i<length xs. ?F x xs = xs ! i \<and> R (snd x) (snd (xs ! i))
             \<and> (\<forall>j<i. R (snd (xs ! j)) (snd (xs ! i)))
             \<and> (\<forall>j<length xs. \<not> R (snd (xs ! i)) (snd (xs ! j)))"
      then obtain i where i: "i < length xs" "?F x xs = xs ! i" "R (snd x) (snd (xs ! i))"
        "\<forall>j<i. R (snd (xs ! j)) (snd (xs ! i))" "\<forall>j<length xs. \<not> R (snd (xs ! i)) (snd (xs ! j))"
        by blast
      have 1: "R (snd b) (snd (xs ! i))" using True i(3) tr by blast
      have 2: "\<forall>j<Suc i. R (snd ((x # xs) ! j)) (snd (xs ! i))"
        using i(3,4) by (auto simp: nth_Cons' less_Suc_eq_0_disj)
      have 3: "\<not> R (snd (xs ! i)) (snd x)" using i(3) tr irr by blast
      have 4: "\<forall>j<length (x # xs). \<not> R (snd (xs ! i)) (snd ((x # xs) ! j))"
        using 3 i(5) by (auto simp: nth_Cons' less_Suc_eq_0_disj)
      have "Suc i < length (x # xs) \<and> ?F b (x # xs) = (x # xs) ! Suc i
          \<and> R (snd b) (snd ((x # xs) ! Suc i)) \<and> (\<forall>j<Suc i. R (snd ((x # xs) ! j)) (snd ((x # xs) ! Suc i)))
          \<and> (\<forall>j<length (x # xs). \<not> R (snd ((x # xs) ! Suc i)) (snd ((x # xs) ! j)))"
        using i(1,2) fb 1 2 4 by simp
      then show ?thesis by blast
    qed
  next
    case False
    then have fb: "?F b (x # xs) = ?F b xs" by simp
    from Cons.IH[OF Cons.prems(1) xs] show ?thesis
    proof
      assume a: "?F b xs = b \<and> (\<forall>y\<in>set xs. \<not> R (snd b) (snd y))"
      with False fb show ?thesis by simp
    next
      assume "\<exists>i<length xs. ?F b xs = xs ! i \<and> R (snd b) (snd (xs ! i))
             \<and> (\<forall>j<i. R (snd (xs ! j)) (snd (xs ! i)))
             \<and> (\<forall>j<length xs. \<not> R (snd (xs ! i)) (snd (xs ! j)))"
      then obtain i where i: "i < length xs" "?F b xs = xs ! i" "R (snd b) (snd (xs ! i))"
        "\<forall>j<i. R (snd (xs ! j)) (snd (xs ! i))" "\<forall>j<length xs. \<not> R (snd (xs ! i)) (snd (xs ! j))"
        by blast
      have "snd b = snd x \<or> R (snd x) (snd b)"
        using tot[OF Cons.prems(1) x] False by blast
      then have 0: "R (snd x) (snd (xs ! i))" using i(3) tr by auto
      have 2: "\<forall>j<Suc i. R (snd ((x # xs) ! j)) (snd (xs ! i))"
        using 0 i(4) by (auto simp: nth_Cons' less_Suc_eq_0_disj)
      have 3: "\<not> R (snd (xs ! i)) (snd x)" using 0 tr irr by blast
      have 4: "\<forall>j<length (x # xs). \<not> R (snd (xs ! i)) (snd ((x # xs) ! j))"
        using 3 i(5) by (auto simp: nth_Cons' less_Suc_eq_0_disj)
      have "Suc i < length (x # xs) \<and> ?F b (x # xs) = (x # xs) ! Suc i
          \<and> R (snd b) (snd ((x # xs) ! Suc i)) \<and> (\<forall>j<Suc i. R (snd ((x # xs) ! j)) (snd ((x # xs) ! Suc i)))
          \<and> (\<forall>j<length (x # xs). \<not> R (snd ((x # xs) ! Suc i)) (snd ((x # xs) ! j)))"
        using i(1,2,3) fb 2 4 by simp
      then show ?thesis by blast
    qed
  qed
qed

lemma first_best_pos:
  assumes tr0: "\<forall>a b c. R a b \<longrightarrow> R b c \<longrightarrow> R a c"
    and irr0: "\<forall>a. \<not> R a a"
    and tot0: "\<forall>a b. a \<noteq> NaN \<longrightarrow> b \<noteq> NaN \<longrightarrow> R a b \<or> a = b \<or> R b a"
    and nn: "\<forall>x\<in>set (b # xs). snd x \<noteq> NaN"
  shows "\<exists>i<length (b # xs). first_best (\<lambda>v w. R w v) b xs = (b # xs) ! i
             \<and> (\<forall>j<i. R (snd ((b # xs) ! j)) (snd ((b # xs) ! i)))
             \<and> (\<forall>j<length (b # xs). \<not> R (snd ((b # xs) ! i)) (snd ((b # xs) ! j)))"
proof -
  let ?F = "first_best (\<lambda>v w. R w v)"
  have b: "snd b \<noteq> NaN" and xs: "\<forall>x\<in>set xs. snd x \<noteq> NaN" using nn by simp_all
  have tr: "\<And>a b c. R a b \<Longrightarrow> R b c \<Longrightarrow> R a c" using tr0 by blast
  have irr: "\<And>a. \<not> R a a" using irr0 by blast
  from first_best_gen[of R, OF tr0 irr0 tot0 b xs] show ?thesis
  proof
    assume a: "?F b xs = b \<and> (\<forall>x\<in>set xs. \<not> R (snd b) (snd x))"
    have "\<forall>j<length (b # xs). \<not> R (snd b) (snd ((b # xs) ! j))"
      using a irr by (auto simp: nth_Cons')
    with a have "0 < length (b # xs) \<and> ?F b xs = (b # xs) ! 0
        \<and> (\<forall>j<0. R (snd ((b # xs) ! j)) (snd ((b # xs) ! 0)))
        \<and> (\<forall>j<length (b # xs). \<not> R (snd ((b # xs) ! 0)) (snd ((b # xs) ! j)))"
      by simp
    then show ?thesis by blast
  next
    assume "\<exists>i<length xs. ?F b xs = xs ! i \<and> R (snd b) (snd (xs ! i))
             \<and> (\<forall>j<i. R (snd (xs ! j)) (snd (xs ! i)))
             \<and> (\<forall>j<length xs. \<not> R (snd (xs ! i)) (snd (xs ! j)))"
    then obtain i where i: "i < length xs" "?F b xs = xs ! i" "R (snd b) (snd (xs ! i))"
        "\<forall>j<i. R (snd (xs ! j)) (snd (xs ! i))" "\<forall>j<length xs. \<not> R (snd (xs ! i)) (snd (xs ! j))"
      by blast
    have 2: "\<forall>j<Suc i. R (snd ((b # xs) ! j)) (snd (xs ! i))"
      using i(3,4) by (auto simp: nth_Cons' less_Suc_eq_0_disj)
    have 3: "\<not> R (snd (xs ! i)) (snd b)" using i(3) tr irr by blast
    have 4: "\<forall>j<length (b # xs). \<not> R (snd (xs ! i)) (snd ((b # xs) ! j))"
      using 3 i(5) by (auto simp: nth_Cons' less_Suc_eq_0_disj)
    have "Suc i < length (b # xs) \<and> ?F b xs = (b # xs) ! Suc i
          \<and> (\<forall>j<Suc i. R (snd ((b # xs) ! j)) (snd ((b # xs) ! Suc i)))
          \<and> (\<forall>j<length (b # xs). \<not> R (snd ((b # xs) ! Suc i)) (snd ((b # xs) ! j)))"
      using i(1,2) 2 4 by simp
    then show ?thesis by blast
  qed
qed


lemma fillna_not_NaN: "d \<noteq> NaN \<Longrightarrow> fillna d v \<noteq> NaN"
  by (simp add: fillna_def)

lemma fillna_id: "v \<noteq> NaN \<Longrightarrow> fillna d v = v"
  by (simp add: fillna_def)

lemma fill_series_nth:
  "i < length s \<Longrightarrow> fill_series d s ! i = (fst (s ! i), fillna d (snd (s ! i)))"
  by (simp add: fill_series_def case_prod_unfold)

lemma length_fill_series: "length (fill_series d s) = length s"
  by (simp add: fill_series_def)

lemma fill_series_no_NaN: "d \<noteq> NaN \<Longrightarrow> \<forall>x\<in>set (fill_series d s). snd x \<noteq> NaN"
  by (auto simp: fill_series_def fillna_def split: if_splits)

lemma fill_series_Nil_iff: "fill_series d s = [] \<longleftrightarrow> s = []"
  by (simp add: fill_series_def)

lemma idxmax_Nil: "idxmax [] = Inl PandasError"
  by (simp add: idxmax_def fill_series_def)

lemma idxmin_Nil: "idxmin [] = Inl PandasError"
  by (simp add: idxmin_def fill_series_def)

lemma idxmax_pos:
  assumes "s \<noteq> []" and "\<not> list_all (\<lambda>p. snd p = NaN) s"
  shows "\<exists>i<length s. idxmax s = Inr (Time (fst (s ! i)))
           \<and> (\<forall>j<i. flt (fillna NInf (snd (s ! j))) (fillna NInf (snd (s ! i))))
           \<and> (\<forall>j<length s. \<not> flt (fillna NInf (snd (s ! i))) (fillna NInf (snd (s ! j))))"
proof -
  obtain x xs where fs: "fill_series NInf s = x # xs"
    using assms(1) by (cases "fill_series NInf s") (auto simp: fill_series_def)
  have nn: "\<forall>y\<in>set (x # xs). snd y \<noteq> NaN"
    using fill_series_no_NaN[of NInf s] fs by simp
  have len: "length (x # xs) = length s"
    using length_fill_series[of NInf s] fs by simp
  have tr: "\<forall>a b c. flt a b \<longrightarrow> flt b c \<longrightarrow> flt a c" using flt_trans by blast
  have irr: "\<forall>a. \<not> flt a a" using flt_irrefl by blast
  have tot: "\<forall>a b. a \<noteq> NaN \<longrightarrow> b \<noteq> NaN \<longrightarrow> flt a b \<or> a = b \<or> flt b a"
    using flt_total by blast
  from first_best_pos[where R = flt and b = x and xs = xs, OF tr irr tot nn]
  obtain i where i: "i < length (x # xs)" "first_best (\<lambda>v w. flt w v) x xs = (x # xs) ! i"
    "\<forall>j<i. flt (snd ((x # xs) ! j)) (snd ((x # xs) ! i))"
    "\<forall>j<length (x # xs). \<not> flt (snd ((x # xs) ! i)) (snd ((x # xs) ! j))"
    by blast
  note i' = i[folded fs]
  have nth: "\<And>j. j < length s \<Longrightarrow> fill_series NInf s ! j = (fst (s ! j), fillna NInf (snd (s ! j)))"
    using fill_series_nth[of _ s NInf] by simp
  have il: "i < length s" using i(1) len by simp
  have r: "idxmax s = Inr (Time (fst (s ! i)))"
    using assms(2) fs i'(2) nth[OF il] by (simp add: idxmax_def)
  have a: "\<forall>j<i. flt (fillna NInf (snd (s ! j))) (fillna NInf (snd (s ! i)))"
    using i'(3) nth il by simp
  have b: "\<forall>j<length s. \<not> flt (fillna NInf (snd (s ! i))) (fillna NInf (snd (s ! j)))"
    using i'(4) nth il length_fill_series by simp
  from il r a b show ?thesis by blast
qed

lemma idxmin_pos:
  assumes "s \<noteq> []" and "\<not> list_all (\<lambda>p. snd p = NaN) s"
  shows "\<exists>i<length s. idxmin s = Inr (Time (fst (s ! i)))
           \<and> (\<forall>j<i. flt (fillna PInf (snd (s ! i))) (fillna PInf (snd (s ! j))))
           \<and> (\<forall>j<length s. \<not> flt (fillna PInf (snd (s ! j))) (fillna PInf (snd (s ! i))))"
proof -
  let ?R = "\<lambda>a b. flt b a"
  obtain x xs where fs: "fill_series PInf s = x # xs"
    using assms(1) by (cases "fill_series PInf s") (auto simp: fill_series_def)
  have nn: "\<forall>y\<in>set (x # xs). snd y \<noteq> NaN"
    using fill_series_no_NaN[of PInf s] fs by simp
  have len: "length (x # xs) = length s"
    using length_fill_series[of PInf s] fs by simp
  have tr: "\<forall>a b c. ?R a b \<longrightarrow> ?R b c \<longrightarrow> ?R a c" using flt_trans by blast
  have irr: "\<forall>a. \<not> ?R a a" using flt_irrefl by blast
  have tot: "\<forall>a b. a \<noteq> NaN \<longrightarrow> b \<noteq> NaN \<longrightarrow> ?R a b \<or> a = b \<or> ?R b a"
    using flt_total by blast
  from first_best_pos[where R = ?R and b = x and xs = xs, OF tr irr tot nn]
  obtain i where i: "i < length (x # xs)" "first_best (\<lambda>v w. flt v w) x xs = (x # xs) ! i"
    "\<forall>j<i. flt (snd ((x # xs) ! i)) (snd ((x # xs) ! j))"
    "\<forall>j<length (x # xs). \<not> flt (snd ((x # xs) ! j)) (snd ((x # xs) ! i))"
    by blast
  note i' = i[folded fs]
  have nth: "\<And>j. j < length s \<Longrightarrow> fill_series PInf s ! j = (fst (s ! j), fillna PInf (snd (s ! j)))"
    using fill_series_nth[of _ s PInf] by simp
  have il: "i < length s" using i(1) len by simp
  have r: "idxmin s = Inr (Time (fst (s ! i)))"
    using assms(2) fs i'(2) nth[OF il] by (simp add: idxmin_def)
  have a: "\<forall>j<i. flt (fillna PInf (snd (s ! i))) (fillna PInf (snd (s ! j)))"
    using i'(3) nth il by simp
  have b: "\<forall>j<length s. \<not> flt (fillna PInf (snd (s ! j))) (fillna PInf (snd (s ! i)))"
    using i'(4) nth il length_fill_series by simp
  from il r a b show ?thesis by blast
qed

lemma idxmax_cases:
  "s \<noteq> [] \<Longrightarrow> idxmax s = Inr Missing \<or> (\<exists>t\<in>fst ` set s. idxmax s = Inr (Time t))"
  using idxmax_pos[of s] by (cases "list_all (\<lambda>p. snd p = NaN) s")
    (auto simp: idxmax_def fill_series_Nil_iff split: list.splits)

lemma idxmin_cases:
  "s \<noteq> [] \<Longrightarrow> idxmin s = Inr Missing \<or> (\<exists>t\<in>fst ` set s. idxmin s = Inr (Time t))"
  using idxmin_pos[of s] by (cases "list_all (\<lambda>p. snd p = NaN) s")
    (auto simp: idxmin_def fill_series_Nil_iff split: list.splits)

subsection \<open>Evaluation at the example circuits\<close>

lemma indices_loop_4: "indices_loop 4 a b = [a, a + b, a + b + b, a + b + b + b]"
  by (simp add: numeral_eq_Suc)

lemmas eval_defs = aggregate_profiles_def materialize_def
  create_loadshape_pmult_dataframe_def indices_loop_4 Let_def scaled_column_def
  accumulate_step_def set_first_def replace_nan_def fillna_def add_aligned_def lookup_na_def
  at_hour_def shape_S1_def shape_S2_def shape_S3_def pv1_def load1_def load2_def load3_def
  idxmax_def idxmin_def column_def fill_series_def between_time_def in_window_def
  time_of_day_def add_derived_def timepoints_of_def get_snapshot_timepoint_def
  resolve_mode_def to_dict_index_def fsub_def of_sign_def

lemma scenario_call_fails:
  "get_snapshot_timepoint scenario_circuit (at_hour 0) MAX_LOAD out
     = \<lparr>log = [], written = None, returned = Inl PandasError\<rparr>"
  by (simp add: eval_defs scenario_circuit_def)

lemma loads_only_call:
  "get_snapshot_timepoint loads_only_circuit (at_hour 8) MAX_LOAD ''out.json'' =
     \<lparr>log = [No_PVSystems_are_present,
             Time_points [(''Max Load'', Time (at_hour 10)), (''Min Load'', Time (at_hour 8)),
                          (''Min Daytime Load'', Time (at_hour 8))]],
      written = Some
        \<lparr>dump_data = JObj
           [(''Max Load'', JObj [(''Timepoints'', JStr (Time (at_hour 10)))]),
            (''Min Load'', JObj [(''Timepoints'', JStr (Time (at_hour 8)))]),
            (''Min Daytime Load'', JObj [(''Timepoints'', JStr (Time (at_hour 8)))])],
         dump_filename = ''out.json'', dump_indent = 2\<rparr>,
      returned = Inr (Time (at_hour 10))\<rparr>"
  by (simp add: eval_defs loads_only_circuit_def)

subsection \<open>Which exceptions can end a call\<close>

lemma materialize_errors:
  "materialize dss st n shapes = Inl e \<Longrightarrow> e = DSSException \<or> e = PandasError"
  by (auto simp: materialize_def create_loadshape_pmult_dataframe_def Let_def
      split: option.splits sum.splits if_splits)

lemma accumulate_step_errors: "accumulate_step c fr s = Inl e \<Longrightarrow> e = PandasError"
  by (auto simp: accumulate_step_def add_aligned_def Let_def split: if_splits)

lemma accumulate_errors:
  "accumulate dss st c ds shapes fr = Inl e \<Longrightarrow> e = DSSException \<or> e = KeyError \<or> e = PandasError"
proof (induction ds arbitrary: shapes fr)
  case Nil
  then show ?case by simp
next
  case (Cons d ds)
  then show ?case
    by (auto simp: scaled_column_def split: sum.splits option.splits if_splits
        dest: materialize_errors accumulate_step_errors)
qed

lemma idxmax_errors: "idxmax s = Inl e \<Longrightarrow> e = PandasError \<and> s = []"
  by (auto simp: idxmax_def fill_series_Nil_iff split: list.splits if_splits)

lemma idxmin_errors: "idxmin s = Inl e \<Longrightarrow> e = PandasError \<and> s = []"
  by (auto simp: idxmin_def fill_series_Nil_iff split: list.splits if_splits)

lemma timepoints_of_errors: "timepoints_of pv fr = Inl e \<Longrightarrow> e = PandasError"
  by (auto simp: timepoints_of_def Let_def split: sum.splits if_splits
      dest: idxmax_errors idxmin_errors)

subsection \<open>Mode resolution\<close>



subsection \<open>The candidates of a profile\<close>

lemma timepoints_of_Inr:
  assumes "timepoints_of pv fr = Inr tps"
  shows "\<exists>a pvr e f. idxmax (column Load fr) = Inr a \<and> idxmin (column Load fr) = Inr e
      \<and> idxmin (column Load (between_time fr)) = Inr f
      \<and> tps = [(''Max Load'', a)] @ pvr @ [(''Min Load'', e), (''Min Daytime Load'', f)]
      \<and> (if pv
          then \<exists>b c d. idxmax (column PV_to_Load_Ratio (between_time (add_derived fr))) = Inr b
                 \<and> idxmax (column PV_minus_Load (between_time (add_derived fr))) = Inr c
                 \<and> idxmax (column PV (between_time (add_derived fr))) = Inr d
                 \<and> pvr = [(''Max PV to Load Ratio'', b), (''Max PV minus Load'', c), (''Max PV'', d)]
          else pvr = [])"
  using assms
  by (cases pv) (auto simp: timepoints_of_def Let_def split: sum.splits)

lemma timepoints_of_Load:
  assumes "timepoints_of pv fr = Inr tps"
  shows "idxmax (column Load fr) = Inr (the (map_of tps ''Max Load''))"
    and "idxmin (column Load fr) = Inr (the (map_of tps ''Min Load''))"
    and "map_of tps ''Max Load'' \<noteq> None" and "map_of tps ''Min Load'' \<noteq> None"
proof -
  from timepoints_of_Inr[OF assms] obtain a pvr e f where
    h: "idxmax (column Load fr) = Inr a" "idxmin (column Load fr) = Inr e"
       "tps = [(''Max Load'', a)] @ pvr @ [(''Min Load'', e), (''Min Daytime Load'', f)]"
       "if pv then \<exists>b c d. pvr = [(''Max PV to Load Ratio'', b), (''Max PV minus Load'', c), (''Max PV'', d)]
        else pvr = []"
    by (cases pv) auto
  have m: "map_of tps ''Max Load'' = Some a" using h(3) by simp
  have n: "map_of tps ''Min Load'' = Some e" using h(3,4) by (cases pv) auto
  show "idxmax (column Load fr) = Inr (the (map_of tps ''Max Load''))" using h(1) m by simp
  show "idxmin (column Load fr) = Inr (the (map_of tps ''Min Load''))" using h(2) n by simp
  show "map_of tps ''Max Load'' \<noteq> None" using m by simp
  show "map_of tps ''Min Load'' \<noteq> None" using n by simp
qed

lemma column_nth: "i < length fr \<Longrightarrow> column f fr ! i = (stamp (fr ! i), f (fr ! i))"
  by (simp add: column_def)

lemma length_column: "length (column f fr) = length fr"
  by (simp add: column_def)

lemma column_not_all_NaN:
  "fr \<noteq> [] \<Longrightarrow> \<forall>r\<in>set fr. f r \<noteq> NaN \<Longrightarrow> \<not> list_all (\<lambda>p. snd p = NaN) (column f fr)"
  by (cases fr) (auto simp: column_def)

lemma load_reductions:
  assumes ne: "fr \<noteq> []" and nn: "\<forall>r\<in>set fr. Load r \<noteq> NaN" and srt: "sorted (map stamp fr)"
  shows "\<exists>i k. i < length fr \<and> k < length fr
      \<and> idxmax (column Load fr) = Inr (Time (stamp (fr ! i)))
      \<and> idxmin (column Load fr) = Inr (Time (stamp (fr ! k)))
      \<and> (\<forall>tps. timepoints_of pv fr = Inr tps \<longrightarrow>
             map_of tps ''Max Load'' = Some (Time (stamp (fr ! i)))
           \<and> map_of tps ''Min Load'' = Some (Time (stamp (fr ! k))))
      \<and> (\<forall>j<length fr. fle (Load (fr ! j)) (Load (fr ! i)))
      \<and> (\<forall>j<length fr. Load (fr ! j) = Load (fr ! i) \<longrightarrow> stamp (fr ! i) \<le> stamp (fr ! j))
      \<and> (\<forall>j<length fr. fle (Load (fr ! k)) (Load (fr ! j)))
      \<and> (\<forall>j<length fr. Load (fr ! j) = Load (fr ! k) \<longrightarrow> stamp (fr ! k) \<le> stamp (fr ! j))"
proof -
  let ?s = "column Load fr"
  have s_ne: "?s \<noteq> []" using ne by (simp add: column_def)
  have s_nn: "\<not> list_all (\<lambda>p. snd p = NaN) ?s" using column_not_all_NaN[OF ne nn] .
  have val: "\<And>j d. j < length fr \<Longrightarrow> fillna d (snd (?s ! j)) = Load (fr ! j)"
    using nn by (simp add: column_nth fillna_def)
  have defd: "\<And>j. j < length fr \<Longrightarrow> Load (fr ! j) \<noteq> NaN" using nn by simp
  have mono: "\<And>a b. a \<le> b \<Longrightarrow> b < length fr \<Longrightarrow> stamp (fr ! a) \<le> stamp (fr ! b)"
    using srt sorted_nth_mono[of "map stamp fr"] by fastforce
  from idxmax_pos[OF s_ne s_nn] obtain i where i: "i < length fr"
      "idxmax ?s = Inr (Time (stamp (fr ! i)))"
      "\<forall>j<i. flt (Load (fr ! j)) (Load (fr ! i))"
      "\<forall>j<length fr. \<not> flt (Load (fr ! i)) (Load (fr ! j))"
    using val by (auto simp: length_column column_nth)
  from idxmin_pos[OF s_ne s_nn] obtain k where k: "k < length fr"
      "idxmin ?s = Inr (Time (stamp (fr ! k)))"
      "\<forall>j<k. flt (Load (fr ! k)) (Load (fr ! j))"
      "\<forall>j<length fr. \<not> flt (Load (fr ! j)) (Load (fr ! k))"
    using val by (auto simp: length_column column_nth)
  have tp: "\<forall>tps. timepoints_of pv fr = Inr tps \<longrightarrow>
             map_of tps ''Max Load'' = Some (Time (stamp (fr ! i)))
           \<and> map_of tps ''Min Load'' = Some (Time (stamp (fr ! k)))"
    using timepoints_of_Load[of pv fr] i(2) k(2) by auto
  have mx: "\<forall>j<length fr. fle (Load (fr ! j)) (Load (fr ! i))"
    using i(1,4) defd by (simp add: fle_def)
  have mn: "\<forall>j<length fr. fle (Load (fr ! k)) (Load (fr ! j))"
    using k(1,4) defd by (simp add: fle_def)
  have e1: "\<forall>j<length fr. Load (fr ! j) = Load (fr ! i) \<longrightarrow> stamp (fr ! i) \<le> stamp (fr ! j)"
  proof (intro allI impI)
    fix j assume j: "j < length fr" "Load (fr ! j) = Load (fr ! i)"
    have "\<not> j < i" using i(3) j(2) flt_irrefl by metis
    then show "stamp (fr ! i) \<le> stamp (fr ! j)" using mono[of i j] j(1) by simp
  qed
  have e2: "\<forall>j<length fr. Load (fr ! j) = Load (fr ! k) \<longrightarrow> stamp (fr ! k) \<le> stamp (fr ! j)"
  proof (intro allI impI)
    fix j assume j: "j < length fr" "Load (fr ! j) = Load (fr ! k)"
    have "\<not> j < k" using k(3) j(2) flt_irrefl by metis
    then show "stamp (fr ! k) \<le> stamp (fr ! j)" using mono[of k j] j(1) by simp
  qed
  from i(1,2) k(1,2) tp mx mn e1 e2 show ?thesis by blast
qed

subsection \<open>Reductions inside the daily window\<close>

lemma between_time_set: "r \<in> set (between_time fr) \<longleftrightarrow> r \<in> set fr \<and> in_window (stamp r)"
  by (simp add: between_time_def)

lemma between_time_sorted: "sorted (map stamp fr) \<Longrightarrow> sorted (map stamp (between_time fr))"
  by (simp add: between_time_def sorted_filter)

lemma idxmax_Time_not_all_NaN:
  "idxmax s = Inr (Time t) \<Longrightarrow> s \<noteq> [] \<and> \<not> list_all (\<lambda>p. snd p = NaN) s"
  by (auto simp: idxmax_def fill_series_def split: list.splits if_splits)

lemma idxmin_Time_not_all_NaN:
  "idxmin s = Inr (Time t) \<Longrightarrow> s \<noteq> [] \<and> \<not> list_all (\<lambda>p. snd p = NaN) s"
  by (auto simp: idxmin_def fill_series_def split: list.splits if_splits)

lemma windowed_idxmax:
  assumes res: "idxmax (column f (between_time fr)) = Inr (Time t)"
    and srt: "sorted (map stamp fr)"
  shows "\<exists>r\<in>set fr. stamp r = t \<and> in_window t
      \<and> (\<forall>r'\<in>set fr. in_window (stamp r') \<longrightarrow>
            \<not> flt (fillna NInf (f r)) (fillna NInf (f r'))
          \<and> (fillna NInf (f r') = fillna NInf (f r) \<longrightarrow> t \<le> stamp r'))"
proof -
  let ?w = "between_time fr"
  let ?s = "column f ?w"
  have sw: "sorted (map stamp ?w)" using between_time_sorted[OF srt] .
  have mono: "\<And>a b. a \<le> b \<Longrightarrow> b < length ?w \<Longrightarrow> stamp (?w ! a) \<le> stamp (?w ! b)"
    using sw sorted_nth_mono[of "map stamp ?w"] by fastforce
  from idxmax_Time_not_all_NaN[OF res] have ne: "?s \<noteq> []"
    and nn: "\<not> list_all (\<lambda>p. snd p = NaN) ?s" by simp_all
  from idxmax_pos[OF ne nn] obtain i where i: "i < length ?w"
      "idxmax ?s = Inr (Time (stamp (?w ! i)))"
      "\<forall>j<i. flt (fillna NInf (f (?w ! j))) (fillna NInf (f (?w ! i)))"
      "\<forall>j<length ?w. \<not> flt (fillna NInf (f (?w ! i))) (fillna NInf (f (?w ! j)))"
    by (auto simp: length_column column_nth)
  let ?r = "?w ! i"
  have t: "stamp ?r = t" using i(2) res by simp
  have rin: "?r \<in> set ?w" using i(1) by simp
  then have rfr: "?r \<in> set fr" and win: "in_window (stamp ?r)"
    by (simp_all add: between_time_set)
  have best: "\<forall>r'\<in>set fr. in_window (stamp r') \<longrightarrow>
            \<not> flt (fillna NInf (f ?r)) (fillna NInf (f r'))
          \<and> (fillna NInf (f r') = fillna NInf (f ?r) \<longrightarrow> t \<le> stamp r')"
  proof (intro ballI impI)
    fix r' assume "r' \<in> set fr" "in_window (stamp r')"
    then have "r' \<in> set ?w" by (simp add: between_time_set)
    then obtain j where j: "j < length ?w" "?w ! j = r'" by (auto simp: in_set_conv_nth)
    have a: "\<not> flt (fillna NInf (f ?r)) (fillna NInf (f r'))" using i(4) j by auto
    have b: "fillna NInf (f r') = fillna NInf (f ?r) \<longrightarrow> t \<le> stamp r'"
    proof
      assume eq: "fillna NInf (f r') = fillna NInf (f ?r)"
      have "\<not> j < i" using i(3) j(2) eq flt_irrefl by metis
      then show "t \<le> stamp r'" using mono[of i j] j t by simp
    qed
    from a b show "\<not> flt (fillna NInf (f ?r)) (fillna NInf (f r'))
          \<and> (fillna NInf (f r') = fillna NInf (f ?r) \<longrightarrow> t \<le> stamp r')" by simp
  qed
  from rfr t win best show ?thesis by auto
qed

lemma windowed_idxmin:
  assumes res: "idxmin (column f (between_time fr)) = Inr (Time t)"
    and srt: "sorted (map stamp fr)"
  shows "\<exists>r\<in>set fr. stamp r = t \<and> in_window t
      \<and> (\<forall>r'\<in>set fr. in_window (stamp r') \<longrightarrow>
            \<not> flt (fillna PInf (f r')) (fillna PInf (f r))
          \<and> (fillna PInf (f r') = fillna PInf (f r) \<longrightarrow> t \<le> stamp r'))"
proof -
  let ?w = "between_time fr"
  let ?s = "column f ?w"
  have sw: "sorted (map stamp ?w)" using between_time_sorted[OF srt] .
  have mono: "\<And>a b. a \<le> b \<Longrightarrow> b < length ?w \<Longrightarrow> stamp (?w ! a) \<le> stamp (?w ! b)"
    using sw sorted_nth_mono[of "map stamp ?w"] by fastforce
  from idxmin_Time_not_all_NaN[OF res] have ne: "?s \<noteq> []"
    and nn: "\<not> list_all (\<lambda>p. snd p = NaN) ?s" by simp_all
  from idxmin_pos[OF ne nn] obtain i where i: "i < length ?w"
      "idxmin ?s = Inr (Time (stamp (?w ! i)))"
      "\<forall>j<i. flt (fillna PInf (f (?w ! i))) (fillna PInf (f (?w ! j)))"
      "\<forall>j<length ?w. \<not> flt (fillna PInf (f (?w ! j))) (fillna PInf (f (?w ! i)))"
    by (auto simp: length_column column_nth)
  let ?r = "?w ! i"
  have t: "stamp ?r = t" using i(2) res by simp
  have rin: "?r \<in> set ?w" using i(1) by simp
  then have rfr: "?r \<in> set fr" and win: "in_window (stamp ?r)"
    by (simp_all add: between_time_set)
  have best: "\<forall>r'\<in>set fr. in_window (stamp r') \<longrightarrow>
            \<not> flt (fillna PInf (f r')) (fillna PInf (f ?r))
          \<and> (fillna PInf (f r') = fillna PInf (f ?r) \<longrightarrow> t \<le> stamp r')"
  proof (intro ballI impI)
    fix r' assume "r' \<in> set fr" "in_window (stamp r')"
    then have "r' \<in> set ?w" by (simp add: between_time_set)
    then obtain j where j: "j < length ?w" "?w ! j = r'" by (auto simp: in_set_conv_nth)
    have a: "\<not> flt (fillna PInf (f r')) (fillna PInf (f ?r))" using i(4) j by auto
    have b: "fillna PInf (f r') = fillna PInf (f ?r) \<longrightarrow> t \<le> stamp r'"
    proof
      assume eq: "fillna PInf (f r') = fillna PInf (f ?r)"
      have "\<not> j < i" using i(3) j(2) eq flt_irrefl by metis
      then show "t \<le> stamp r'" using mono[of i j] j t by simp
    qed
    from a b show "\<not> flt (fillna PInf (f r')) (fillna PInf (f ?r))
          \<and> (fillna PInf (f r') = fillna PInf (f ?r) \<longrightarrow> t \<le> stamp r')" by simp
  qed
  from rfr t win best show ?thesis by auto
qed

lemma add_derived_sorted: "map stamp (add_derived fr) = map stamp fr"
  by (simp add: add_derived_def)

lemma add_derived_set:
  "d \<in> set (add_derived fr) \<longleftrightarrow>
     (\<exists>r\<in>set fr. d = \<lparr>stamp = stamp r, Load = Load r, PV = PV r,
                       PV_to_Load_Ratio = fdiv (PV r) (Load r),
                       PV_minus_Load = fsub (PV r) (Load r)\<rparr>)"
  by (auto simp: add_derived_def)

lemma derived_window_max:
  assumes res: "idxmax (column g (between_time (add_derived fr))) = Inr (Time t)"
    and srt: "sorted (map stamp fr)"
    and gh: "\<And>r. g \<lparr>stamp = stamp r, Load = Load r, PV = PV r,
                       PV_to_Load_Ratio = fdiv (PV r) (Load r),
                       PV_minus_Load = fsub (PV r) (Load r)\<rparr> = h r"
  shows "\<exists>r\<in>set fr. stamp r = t \<and> in_window t
      \<and> (\<forall>r'\<in>set fr. in_window (stamp r') \<longrightarrow>
            \<not> flt (fillna NInf (h r)) (fillna NInf (h r'))
          \<and> (fillna NInf (h r') = fillna NInf (h r) \<longrightarrow> t \<le> stamp r'))"
proof -
  let ?D = "\<lambda>r. \<lparr>stamp = stamp r, Load = Load r, PV = PV r,
                 PV_to_Load_Ratio = fdiv (PV r) (Load r),
                 PV_minus_Load = fsub (PV r) (Load r)\<rparr>"
  have srt': "sorted (map stamp (add_derived fr))" using srt by (simp add: add_derived_sorted)
  from windowed_idxmax[OF res srt'] obtain d where d: "d \<in> set (add_derived fr)"
      "stamp d = t" "in_window t"
      "\<forall>d'\<in>set (add_derived fr). in_window (stamp d') \<longrightarrow>
            \<not> flt (fillna NInf (g d)) (fillna NInf (g d'))
          \<and> (fillna NInf (g d') = fillna NInf (g d) \<longrightarrow> t \<le> stamp d')"
    by blast
  from d(1) obtain r where r: "r \<in> set fr" "d = ?D r" by (auto simp: add_derived_set)
  have st: "stamp r = t" using d(2) r(2) by simp
  have gd: "g d = h r" using r(2) gh by simp
  have best: "\<forall>r'\<in>set fr. in_window (stamp r') \<longrightarrow>
            \<not> flt (fillna NInf (h r)) (fillna NInf (h r'))
          \<and> (fillna NInf (h r') = fillna NInf (h r) \<longrightarrow> t \<le> stamp r')"
  proof (intro ballI impI)
    fix r' assume r': "r' \<in> set fr" "in_window (stamp r')"
    have m: "?D r' \<in> set (add_derived fr)" using r'(1) add_derived_set by blast
    have w: "in_window (stamp (?D r'))" using r'(2) by simp
    from d(4) m w have "\<not> flt (fillna NInf (g d)) (fillna NInf (g (?D r')))
          \<and> (fillna NInf (g (?D r')) = fillna NInf (g d) \<longrightarrow> t \<le> stamp (?D r'))"
      by blast
    then show "\<not> flt (fillna NInf (h r)) (fillna NInf (h r'))
          \<and> (fillna NInf (h r') = fillna NInf (h r) \<longrightarrow> t \<le> stamp r')"
      using gd gh by simp
  qed
  from r(1) st d(3) best show ?thesis by blast
qed

text \<open>
  Claim C2. Whenever the call computes its candidates, a timestamp standing for \<open>Max PV\<close>,
  \<open>Max PV to Load Ratio\<close>, \<open>Max PV minus Load\<close> or \<open>Min Daytime Load\<close> has its time of day
  from 08:00 to 17:00, both included (in microseconds of the day), and is the timestamp of a
  row of the profile; no row of the window has a larger value of the criterion's series
  (smaller, for \<open>Min Daytime Load\<close>; a NaN counts as the worst value), and among the rows of
  the window with the same value it is the earliest. Rows outside the window play no part,
  whatever their values.
\<close>

theorem daytime_candidates:
  assumes tp: "timepoints_of pv fr = Inr tps" and srt: "sorted (map stamp fr)"
    and nm: "name \<in> {''Max PV'', ''Max PV to Load Ratio'', ''Max PV minus Load'',
                     ''Min Daytime Load''}"
    and cand: "map_of tps name = Some (Time t)"
  shows "28800000000 \<le> time_of_day t \<and> time_of_day t \<le> 61200000000
    \<and> (\<exists>r\<in>set fr. stamp r = t
        \<and> (\<forall>r'\<in>set fr. in_window (stamp r') \<longrightarrow>
             (name = ''Max PV'' \<longrightarrow>
                \<not> flt (fillna NInf (PV r)) (fillna NInf (PV r'))
              \<and> (fillna NInf (PV r') = fillna NInf (PV r) \<longrightarrow> t \<le> stamp r'))
           \<and> (name = ''Max PV to Load Ratio'' \<longrightarrow>
                \<not> flt (fillna NInf (fdiv (PV r) (Load r))) (fillna NInf (fdiv (PV r') (Load r')))
              \<and> (fillna NInf (fdiv (PV r') (Load r')) = fillna NInf (fdiv (PV r) (Load r))
                   \<longrightarrow> t \<le> stamp r'))
           \<and> (name = ''Max PV minus Load'' \<longrightarrow>
                \<not> flt (fillna NInf (fsub (PV r) (Load r))) (fillna NInf (fsub (PV r') (Load r')))
              \<and> (fillna NInf (fsub (PV r') (Load r')) = fillna NInf (fsub (PV r) (Load r))
                   \<longrightarrow> t \<le> stamp r'))
           \<and> (name = ''Min Daytime Load'' \<longrightarrow>
                \<not> flt (fillna PInf (Load r')) (fillna PInf (Load r))
              \<and> (fillna PInf (Load r') = fillna PInf (Load r) \<longrightarrow> t \<le> stamp r'))))"
proof -
  from timepoints_of_Inr[OF tp] obtain a pvr e f where
    h: "idxmin (column Load (between_time fr)) = Inr f"
       "tps = [(''Max Load'', a)] @ pvr @ [(''Min Load'', e), (''Min Daytime Load'', f)]"
       "if pv
          then \<exists>b c d. idxmax (column PV_to_Load_Ratio (between_time (add_derived fr))) = Inr b
                 \<and> idxmax (column PV_minus_Load (between_time (add_derived fr))) = Inr c
                 \<and> idxmax (column PV (between_time (add_derived fr))) = Inr d
                 \<and> pvr = [(''Max PV to Load Ratio'', b), (''Max PV minus Load'', c), (''Max PV'', d)]
          else pvr = []"
    by blast
  have win: "\<And>u. in_window u \<Longrightarrow> 28800000000 \<le> time_of_day u \<and> time_of_day u \<le> 61200000000"
    by (simp add: in_window_def)
  consider (mpv) "name = ''Max PV''" | (ratio) "name = ''Max PV to Load Ratio''"
    | (minus) "name = ''Max PV minus Load''" | (mdl) "name = ''Min Daytime Load''"
    using nm by auto
  then show ?thesis
  proof cases
    case mdl
    have "f = Time t" using h(2,3) cand mdl by (cases pv) auto
    then have "idxmin (column Load (between_time fr)) = Inr (Time t)" using h(1) by simp
    from windowed_idxmin[OF this srt] show ?thesis using mdl win by auto
  next
    case mpv
    have pv: pv using h(2,3) cand mpv by (cases pv) auto
    then obtain b c d where p: "idxmax (column PV (between_time (add_derived fr))) = Inr d"
        "pvr = [(''Max PV to Load Ratio'', b), (''Max PV minus Load'', c), (''Max PV'', d)]"
      using h(3) by auto
    have "d = Time t" using h(2) p(2) cand mpv by simp
    then have "idxmax (column PV (between_time (add_derived fr))) = Inr (Time t)"
      using p(1) by simp
    from derived_window_max[OF this srt, of PV] show ?thesis using mpv win by auto
  next
    case ratio
    have pv: pv using h(2,3) cand ratio by (cases pv) auto
    then obtain b c d where
      p: "idxmax (column PV_to_Load_Ratio (between_time (add_derived fr))) = Inr b"
        "pvr = [(''Max PV to Load Ratio'', b), (''Max PV minus Load'', c), (''Max PV'', d)]"
      using h(3) by auto
    have "b = Time t" using h(2) p(2) cand ratio by simp
    then have "idxmax (column PV_to_Load_Ratio (between_time (add_derived fr))) = Inr (Time t)"
      using p(1) by simp
    from derived_window_max[OF this srt, of "\<lambda>r. fdiv (PV r) (Load r)"]
    show ?thesis using ratio win by auto
  next
    case minus
    have pv: pv using h(2,3) cand minus by (cases pv) auto
    then obtain b c d where
      p: "idxmax (column PV_minus_Load (between_time (add_derived fr))) = Inr c"
        "pvr = [(''Max PV to Load Ratio'', b), (''Max PV minus Load'', c), (''Max PV'', d)]"
      using h(3) by auto
    have "c = Time t" using h(2) p(2) cand minus by simp
    then have "idxmax (column PV_minus_Load (between_time (add_derived fr))) = Inr (Time t)"
      using p(1) by simp
    from derived_window_max[OF this srt, of "\<lambda>r. fsub (PV r) (Load r)"]
    show ?thesis using minus win by auto
  qed
qed

lemma dawn_timepoints:
  "timepoints_of True dawn_frame =
     Inr [(''Max Load'', Time (at_hour 8)), (''Max PV to Load Ratio'', Time (at_hour 9)),
          (''Max PV minus Load'', Time (at_hour 9)), (''Max PV'', Time (at_hour 9)),
          (''Min Load'', Time (at_hour 9)), (''Min Daytime Load'', Time (at_hour 9))]"
  by (simp add: eval_defs dawn_frame_def)

theorem daytime_candidates_witness:
  "timepoints_of True dawn_frame =
     Inr [(''Max Load'', Time (at_hour 8)), (''Max PV to Load Ratio'', Time (at_hour 9)),
          (''Max PV minus Load'', Time (at_hour 9)), (''Max PV'', Time (at_hour 9)),
          (''Min Load'', Time (at_hour 9)), (''Min Daytime Load'', Time (at_hour 9))]
   \<and> PV (dawn_frame ! 0) = Fin 100 \<and> stamp (dawn_frame ! 0) = at_hour 7
   \<and> 28800000000 \<le> time_of_day (at_hour 9) \<and> time_of_day (at_hour 9) \<le> 61200000000"
proof -
  have h2: "sorted (map stamp dawn_frame)" by (simp add: dawn_frame_def at_hour_def)
  have h3: "''Max PV'' \<in> {''Max PV'', ''Max PV to Load Ratio'', ''Max PV minus Load'',
                     ''Min Daytime Load''}" by simp
  have h4: "map_of [(''Max Load'', Time (at_hour 8)), (''Max PV to Load Ratio'', Time (at_hour 9)),
           (''Max PV minus Load'', Time (at_hour 9)), (''Max PV'', Time (at_hour 9)),
           (''Min Load'', Time (at_hour 9)), (''Min Daytime Load'', Time (at_hour 9))]
      ''Max PV'' = Some (Time (at_hour 9))" by simp
  have r0: "PV (dawn_frame ! 0) = Fin 100 \<and> stamp (dawn_frame ! 0) = at_hour 7"
    by (simp add: dawn_frame_def)
  from daytime_candidates[OF dawn_timepoints h2 h3 h4] dawn_timepoints r0 show ?thesis by blast
qed

subsection \<open>Which candidates are computed, and the report\<close>


lemma call_unfolded_both:
  "returned (get_snapshot_timepoint dss st mode out) =
     (case column_of_mode (fst (resolve_mode mode (PVsystems dss))) of
        Inl e \<Rightarrow> Inl e
      | Inr cn \<Rightarrow>
          (case aggregate_profiles dss st of
             Inl e \<Rightarrow> Inl e
           | Inr fr \<Rightarrow>
               (case timepoints_of (PVsystems dss \<noteq> []) fr of
                  Inl e \<Rightarrow> Inl e
                | Inr tps \<Rightarrow> (case map_of tps cn of None \<Rightarrow> Inl KeyError | Some c \<Rightarrow> Inr c))))
   \<and> written (get_snapshot_timepoint dss st mode out) =
     (case column_of_mode (fst (resolve_mode mode (PVsystems dss))) of
        Inl e \<Rightarrow> None
      | Inr cn \<Rightarrow>
          (case aggregate_profiles dss st of
             Inl e \<Rightarrow> None
           | Inr fr \<Rightarrow>
               (case timepoints_of (PVsystems dss \<noteq> []) fr of
                  Inl e \<Rightarrow> None
                | Inr tps \<Rightarrow> Some \<lparr>dump_data = to_dict_index tps, dump_filename = out,
                                     dump_indent = 2\<rparr>)))"
proof -
  obtain m l where rm: "resolve_mode mode (PVsystems dss) = (m, l)"
    by (cases "resolve_mode mode (PVsystems dss)") auto
  note d = get_snapshot_timepoint_def aggregate_profiles_def Let_def rm
  show ?thesis
  proof (cases "column_of_mode m")
    case (Inl e)
    then show ?thesis by (simp add: d)
  next
    case cn: (Inr cn)
    show ?thesis
    proof (cases "accumulate (LoadShapes dss) st ColPV (PVsystems dss) Map.empty []")
      case (Inl e)
      then show ?thesis using cn by (simp add: d)
    next
      case pv: (Inr fr1)
      show ?thesis
      proof (cases "accumulate (LoadShapes dss) st ColLoad (Loads dss) Map.empty fr1")
        case (Inl e)
        then show ?thesis using cn pv by (simp add: d)
      next
        case ld: (Inr fr)
        show ?thesis
        proof (cases "timepoints_of (PVsystems dss \<noteq> []) fr")
          case (Inl e)
          then show ?thesis using cn pv ld by (simp add: d)
        next
          case (Inr tps)
          then show ?thesis using cn pv ld by (simp add: d)
        qed
      qed
    qed
  qed
qed

lemmas call_unfolded = call_unfolded_both[THEN conjunct1] call_unfolded_both[THEN conjunct2]





text \<open>
  Claim C9, as the code has it. A call that returns a time point has written, to the
  caller's path and with indent 2, a record whose keys are the criteria in the order they
  were computed (\<open>Max Load\<close>; with PV systems \<open>Max PV to Load Ratio\<close>, \<open>Max PV minus Load\<close>,
  \<open>Max PV\<close>; \<open>Min Load\<close>; \<open>Min Daytime Load\<close>, always) and whose value under each key is a
  record with the one key \<open>Timepoints\<close>, holding the string of that criterion's candidate:
  the reduction of the aggregate profile computed for it in lines 116 to 126. The returned
  time point is the candidate under the key of the mode's criterion.
\<close>

theorem report_structure:
  assumes "returned (get_snapshot_timepoint dss st mode out) = Inr c"
  shows "\<exists>fr a e f pvr cn.
       aggregate_profiles dss st = Inr fr
     \<and> idxmax (column Load fr) = Inr a
     \<and> idxmin (column Load fr) = Inr e
     \<and> idxmin (column Load (between_time fr)) = Inr f
     \<and> (if PVsystems dss \<noteq> []
        then \<exists>b c d. idxmax (column PV_to_Load_Ratio (between_time (add_derived fr))) = Inr b
               \<and> idxmax (column PV_minus_Load (between_time (add_derived fr))) = Inr c
               \<and> idxmax (column PV (between_time (add_derived fr))) = Inr d
               \<and> pvr = [(''Max PV to Load Ratio'', b), (''Max PV minus Load'', c), (''Max PV'', d)]
        else pvr = [])
     \<and> timepoints_of (PVsystems dss \<noteq> []) fr
         = Inr ([(''Max Load'', a)] @ pvr @ [(''Min Load'', e), (''Min Daytime Load'', f)])
     \<and> written (get_snapshot_timepoint dss st mode out)
         = Some \<lparr>dump_data = JObj (map (\<lambda>(k, v). (k, JObj [(''Timepoints'', JStr v)]))
                    ([(''Max Load'', a)] @ pvr @ [(''Min Load'', e), (''Min Daytime Load'', f)])),
                 dump_filename = out, dump_indent = 2\<rparr>
     \<and> column_of_mode (fst (resolve_mode mode (PVsystems dss))) = Inr cn
     \<and> map_of ([(''Max Load'', a)] @ pvr @ [(''Min Load'', e), (''Min Daytime Load'', f)]) cn
         = Some c"
proof -
  from assms obtain cn fr tps where
    h: "column_of_mode (fst (resolve_mode mode (PVsystems dss))) = Inr cn"
       "aggregate_profiles dss st = Inr fr"
       "timepoints_of (PVsystems dss \<noteq> []) fr = Inr tps"
    by (auto simp: call_unfolded(1) split: sum.splits)
  have c: "map_of tps cn = Some c"
    using assms h by (auto simp: call_unfolded(1) split: option.splits)
  have w: "written (get_snapshot_timepoint dss st mode out)
        = Some \<lparr>dump_data = JObj (map (\<lambda>(k, v). (k, JObj [(''Timepoints'', JStr v)])) tps),
                dump_filename = out, dump_indent = 2\<rparr>"
    using h by (simp add: call_unfolded(2) to_dict_index_def)
  from timepoints_of_Inr[OF h(3)] obtain a pvr e f where
    t: "idxmax (column Load fr) = Inr a" "idxmin (column Load fr) = Inr e"
       "idxmin (column Load (between_time fr)) = Inr f"
       "tps = [(''Max Load'', a)] @ pvr @ [(''Min Load'', e), (''Min Daytime Load'', f)]"
       "if PVsystems dss \<noteq> []
        then \<exists>b c d. idxmax (column PV_to_Load_Ratio (between_time (add_derived fr))) = Inr b
               \<and> idxmax (column PV_minus_Load (between_time (add_derived fr))) = Inr c
               \<and> idxmax (column PV (between_time (add_derived fr))) = Inr d
               \<and> pvr = [(''Max PV to Load Ratio'', b), (''Max PV minus Load'', c), (''Max PV'', d)]
        else pvr = []"
    by blast
  have tp: "timepoints_of (PVsystems dss \<noteq> []) fr
         = Inr ([(''Max Load'', a)] @ pvr @ [(''Min Load'', e), (''Min Daytime Load'', f)])"
    using h(3) t(4) by simp
  have w': "written (get_snapshot_timepoint dss st mode out)
         = Some \<lparr>dump_data = JObj (map (\<lambda>(k, v). (k, JObj [(''Timepoints'', JStr v)]))
                    ([(''Max Load'', a)] @ pvr @ [(''Min Load'', e), (''Min Daytime Load'', f)])),
                 dump_filename = out, dump_indent = 2\<rparr>"
    using w t(4) by simp
  have c': "map_of ([(''Max Load'', a)] @ pvr @ [(''Min Load'', e), (''Min Daytime Load'', f)]) cn
         = Some c"
    using c t(4) by simp
  from h(2) t(1,2,3,5) tp w' h(1) c' show ?thesis by blast
qed

lemma scenario_day_call:
  "get_snapshot_timepoint scenario_circuit (at_hour 8) MAX_LOAD ''out.json'' =
     \<lparr>log = [Time_points
         [(''Max Load'', Time (at_hour 10)), (''Max PV to Load Ratio'', Time (at_hour 8)),
          (''Max PV minus Load'', Time (at_hour 8)), (''Max PV'', Time (at_hour 10)),
          (''Min Load'', Time (at_hour 8)), (''Min Daytime Load'', Time (at_hour 8))]],
      written = Some
        \<lparr>dump_data = JObj
           [(''Max Load'', JObj [(''Timepoints'', JStr (Time (at_hour 10)))]),
            (''Max PV to Load Ratio'', JObj [(''Timepoints'', JStr (Time (at_hour 8)))]),
            (''Max PV minus Load'', JObj [(''Timepoints'', JStr (Time (at_hour 8)))]),
            (''Max PV'', JObj [(''Timepoints'', JStr (Time (at_hour 10)))]),
            (''Min Load'', JObj [(''Timepoints'', JStr (Time (at_hour 8)))]),
            (''Min Daytime Load'', JObj [(''Timepoints'', JStr (Time (at_hour 8)))])],
         dump_filename = ''out.json'', dump_indent = 2\<rparr>,
      returned = Inr (Time (at_hour 10))\<rparr>"
  by (simp add: eval_defs scenario_circuit_def)

lemma scenario_day_aggregate:
  "aggregate_profiles scenario_circuit (at_hour 8) =
     Inr [\<lparr>stamp = at_hour 8, Load = Fin 2, PV = Fin 1\<rparr>,
          \<lparr>stamp = at_hour 9, Load = Fin 8, PV = Fin 4\<rparr>,
          \<lparr>stamp = at_hour 10, Load = Fin 10, PV = Fin 5\<rparr>,
          \<lparr>stamp = at_hour 11, Load = Fin 3, PV = Fin (15 / 10)\<rparr>]"
  by (simp add: eval_defs scenario_circuit_def)

theorem report_structure_witness:
  "returned (get_snapshot_timepoint scenario_circuit (at_hour 8) MAX_LOAD ''out.json'')
     = Inr (Time (at_hour 10))
   \<and> (\<exists>a b c d e f.
         idxmax (column Load
           [\<lparr>stamp = at_hour 8, Load = Fin 2, PV = Fin 1\<rparr>,
            \<lparr>stamp = at_hour 9, Load = Fin 8, PV = Fin 4\<rparr>,
            \<lparr>stamp = at_hour 10, Load = Fin 10, PV = Fin 5\<rparr>,
            \<lparr>stamp = at_hour 11, Load = Fin 3, PV = Fin (15 / 10)\<rparr>]) = Inr a
       \<and> written (get_snapshot_timepoint scenario_circuit (at_hour 8) MAX_LOAD ''out.json'')
          = Some \<lparr>dump_data = JObj
               [(''Max Load'', JObj [(''Timepoints'', JStr a)]),
                (''Max PV to Load Ratio'', JObj [(''Timepoints'', JStr b)]),
                (''Max PV minus Load'', JObj [(''Timepoints'', JStr c)]),
                (''Max PV'', JObj [(''Timepoints'', JStr d)]),
                (''Min Load'', JObj [(''Timepoints'', JStr e)]),
                (''Min Daytime Load'', JObj [(''Timepoints'', JStr f)])],
              dump_filename = ''out.json'', dump_indent = 2\<rparr>)"
proof -
  have h: "returned (get_snapshot_timepoint scenario_circuit (at_hour 8) MAX_LOAD ''out.json'')
     = Inr (Time (at_hour 10))"
    by (simp add: scenario_day_call)
  have pv: "PVsystems scenario_circuit \<noteq> []" by (simp add: scenario_circuit_def)
  from report_structure[OF h] h pv scenario_day_aggregate show ?thesis by auto
qed

theorem report_values_counterexample:
  "written (get_snapshot_timepoint scenario_circuit (at_hour 8) MAX_LOAD ''out.json'') =
     Some \<lparr>dump_data = JObj
           [(''Max Load'', JObj [(''Timepoints'', JStr (Time (at_hour 10)))]),
            (''Max PV to Load Ratio'', JObj [(''Timepoints'', JStr (Time (at_hour 8)))]),
            (''Max PV minus Load'', JObj [(''Timepoints'', JStr (Time (at_hour 8)))]),
            (''Max PV'', JObj [(''Timepoints'', JStr (Time (at_hour 10)))]),
            (''Min Load'', JObj [(''Timepoints'', JStr (Time (at_hour 8)))]),
            (''Min Daytime Load'', JObj [(''Timepoints'', JStr (Time (at_hour 8)))])],
         dump_filename = ''out.json'', dump_indent = 2\<rparr>
   \<and> JObj [(''Timepoints'', JStr (Time (at_hour 10)))] \<noteq> JStr (Time (at_hour 10))"
  by (simp add: scenario_day_call)

subsection \<open>Unsupported modes\<close>

lemma call_errors:
  "returned (get_snapshot_timepoint dss st mode out) = Inl e \<Longrightarrow>
     e = AssertionError \<and> mode = NONE \<and> PVsystems dss \<noteq> []
     \<or> e = DSSException \<or> e = KeyError \<or> e = PandasError"
proof -
  assume a: "returned (get_snapshot_timepoint dss st mode out) = Inl e"
  obtain m l where rm: "resolve_mode mode (PVsystems dss) = (m, l)"
    by (cases "resolve_mode mode (PVsystems dss)") auto
  show ?thesis
  proof (cases "column_of_mode m")
    case (Inl e')
    then have "m = NONE" and "e' = AssertionError" by (cases m; simp)+
    moreover have "e = e'" using a Inl rm by (simp add: call_unfolded(1))
    moreover have "mode = NONE \<and> PVsystems dss \<noteq> []"
      using rm \<open>m = NONE\<close> by (auto simp: resolve_mode_def split: if_splits)
    ultimately show ?thesis by simp
  next
    case (Inr cn)
    then show ?thesis using a rm
      by (auto simp: call_unfolded(1) aggregate_profiles_def
          split: sum.splits option.splits dest: accumulate_errors timepoints_of_errors)
  qed
qed

text \<open>
  Claim C6, as the code has it. The one mode the selector rejects is \<open>none\<close> with PV systems
  present: the call then ends in an AssertionError (the \<open>assert False\<close> of line 77) before
  anything is aggregated, logged or written. No call ends in the configuration exception of
  disco/exceptions.py. A PV-dependent mode requested without PV systems raises nothing at
  this point: it has been replaced by \<open>max_load\<close>, whose column is \<open>Max Load\<close>.
\<close>

theorem unsupported_mode:
  "(PVsystems dss \<noteq> [] \<longrightarrow>
      get_snapshot_timepoint dss st NONE out
        = \<lparr>log = [], written = None, returned = Inl AssertionError\<rparr>)
   \<and> (returned (get_snapshot_timepoint dss st mode out) = Inl AssertionError \<longrightarrow>
        mode = NONE \<and> PVsystems dss \<noteq> [])
   \<and> returned (get_snapshot_timepoint dss st mode out) \<noteq> Inl AnalysisConfigurationException
   \<and> (PVsystems dss = [] \<longrightarrow>
        column_of_mode (fst (resolve_mode mode (PVsystems dss))) = Inr ''Max Load'')"
proof -
  have a: "PVsystems dss \<noteq> [] \<Longrightarrow> get_snapshot_timepoint dss st NONE out
        = \<lparr>log = [], written = None, returned = Inl AssertionError\<rparr>"
    by (simp add: get_snapshot_timepoint_def resolve_mode_def)
  have b: "returned (get_snapshot_timepoint dss st mode out) = Inl AssertionError \<Longrightarrow>
        mode = NONE \<and> PVsystems dss \<noteq> []"
    using call_errors[of dss st mode out AssertionError] by simp
  have c: "returned (get_snapshot_timepoint dss st mode out) \<noteq> Inl AnalysisConfigurationException"
    using call_errors[of dss st mode out AnalysisConfigurationException] by auto
  have d: "PVsystems dss = [] \<Longrightarrow>
        column_of_mode (fst (resolve_mode mode (PVsystems dss))) = Inr ''Max Load''"
    by (simp add: resolve_mode_def)
  from a b c d show ?thesis by blast
qed

theorem unsupported_mode_witness:
  "get_snapshot_timepoint scenario_circuit (at_hour 8) NONE ''out.json''
     = \<lparr>log = [], written = None, returned = Inl AssertionError\<rparr>
   \<and> column_of_mode (fst (resolve_mode DAYTIME_MIN_LOAD (PVsystems loads_only_circuit)))
       = Inr ''Max Load''"
proof -
  have h1: "PVsystems scenario_circuit \<noteq> []" by (simp add: scenario_circuit_def)
  have h2: "PVsystems loads_only_circuit = []" by (simp add: loads_only_circuit_def)
  show ?thesis
    using h1 h2 unsupported_mode[of scenario_circuit "at_hour 8" "''out.json''" NONE]
      unsupported_mode[of loads_only_circuit "at_hour 8" "''out.json''" DAYTIME_MIN_LOAD]
    by simp
qed

theorem unsupported_mode_counterexample:
  "returned (get_snapshot_timepoint scenario_circuit (at_hour 8) NONE ''out.json'')
     = Inl AssertionError
   \<and> AssertionError \<noteq> AnalysisConfigurationException
   \<and> PVsystems loads_only_circuit = []
   \<and> returned (get_snapshot_timepoint loads_only_circuit (at_hour 8) MAX_PV_LOAD_RATIO ''out.json'')
       = Inr (Time (at_hour 10))"
proof -
  have a: "returned (get_snapshot_timepoint scenario_circuit (at_hour 8) NONE ''out.json'')
     = Inl AssertionError"
    by (simp add: get_snapshot_timepoint_def resolve_mode_def scenario_circuit_def)
  have b: "PVsystems loads_only_circuit = []" by (simp add: loads_only_circuit_def)
  have c: "returned (get_snapshot_timepoint loads_only_circuit (at_hour 8) MAX_PV_LOAD_RATIO ''out.json'')
       = Inr (Time (at_hour 10))"
    by (simp add: eval_defs loads_only_circuit_def)
  from a b c show ?thesis by simp
qed

subsection \<open>Empty windows and circuits without loads\<close>

lemma between_time_add_derived: "between_time (add_derived fr) = add_derived (between_time fr)"
  by (simp add: between_time_def add_derived_def filter_map comp_def)

lemma add_derived_Nil_iff: "add_derived fr = [] \<longleftrightarrow> fr = []"
  by (simp add: add_derived_def)

lemma column_Nil_iff: "column f fr = [] \<longleftrightarrow> fr = []"
  by (simp add: column_def)

lemma idxmax_Inr: "s \<noteq> [] \<Longrightarrow> \<exists>c. idxmax s = Inr c"
  using idxmax_cases[of s] by auto

lemma idxmin_Inr: "s \<noteq> [] \<Longrightarrow> \<exists>c. idxmin s = Inr c"
  using idxmin_cases[of s] by auto

lemma empty_window_timepoints:
  assumes "between_time fr = []"
  shows "timepoints_of pv fr = Inl PandasError"
proof (cases "idxmax (column Load fr)")
  case (Inl e)
  then show ?thesis using idxmax_errors[OF Inl] by (simp add: timepoints_of_def)
next
  case a: (Inr a)
  show ?thesis
  proof (cases pv)
    case True
    have w: "between_time (add_derived fr) = []"
      using assms by (simp add: between_time_add_derived add_derived_Nil_iff)
    have "idxmax (column PV_to_Load_Ratio (between_time (add_derived fr))) = Inl PandasError"
      by (simp add: w column_def idxmax_Nil)
    then show ?thesis using a True by (simp add: timepoints_of_def Let_def)
  next
    case False
    show ?thesis
    proof (cases "idxmin (column Load fr)")
      case (Inl e)
      then show ?thesis using a False idxmin_errors[OF Inl] by (simp add: timepoints_of_def)
    next
      case (Inr e)
      have "idxmin (column Load (between_time fr)) = Inl PandasError"
        using assms by (simp add: column_def idxmin_Nil)
      then show ?thesis using a False Inr by (simp add: timepoints_of_def)
    qed
  qed
qed

lemma nonempty_window_timepoints:
  assumes "between_time fr \<noteq> []"
  shows "\<exists>tps. timepoints_of pv fr = Inr tps"
proof -
  have fr: "fr \<noteq> []" using assms by (auto simp: between_time_def)
  have w: "between_time (add_derived fr) \<noteq> []"
    using assms by (simp add: between_time_add_derived add_derived_Nil_iff)
  obtain a where a: "idxmax (column Load fr) = Inr a"
    using idxmax_Inr[of "column Load fr"] fr by (auto simp: column_Nil_iff)
  obtain e where e: "idxmin (column Load fr) = Inr e"
    using idxmin_Inr[of "column Load fr"] fr by (auto simp: column_Nil_iff)
  obtain f where f: "idxmin (column Load (between_time fr)) = Inr f"
    using idxmin_Inr[of "column Load (between_time fr)"] assms by (auto simp: column_Nil_iff)
  obtain b where b: "idxmax (column PV_to_Load_Ratio (between_time (add_derived fr))) = Inr b"
    using idxmax_Inr[of "column PV_to_Load_Ratio (between_time (add_derived fr))"] w
    by (auto simp: column_Nil_iff)
  obtain c where c: "idxmax (column PV_minus_Load (between_time (add_derived fr))) = Inr c"
    using idxmax_Inr[of "column PV_minus_Load (between_time (add_derived fr))"] w
    by (auto simp: column_Nil_iff)
  obtain d where d: "idxmax (column PV (between_time (add_derived fr))) = Inr d"
    using idxmax_Inr[of "column PV (between_time (add_derived fr))"] w
    by (auto simp: column_Nil_iff)
  show ?thesis using a b c d e f by (cases pv) (simp_all add: timepoints_of_def)
qed

lemma idxmax_constant:
  assumes ne: "fr \<noteq> []" and cst: "\<forall>r\<in>set fr. f r = v" and v: "v \<noteq> NaN"
  shows "idxmax (column f fr) = Inr (Time (stamp (hd fr)))"
proof -
  have nn: "\<forall>r\<in>set fr. f r \<noteq> NaN" using cst v by simp
  have s_ne: "column f fr \<noteq> []" using ne by (simp add: column_Nil_iff)
  from idxmax_pos[OF s_ne column_not_all_NaN[OF ne nn]] obtain i where i: "i < length fr"
      "idxmax (column f fr) = Inr (Time (stamp (fr ! i)))"
      "\<forall>j<i. flt (fillna NInf (f (fr ! j))) (fillna NInf (f (fr ! i)))"
    by (auto simp: length_column column_nth)
  have "i = 0"
  proof (rule ccontr)
    assume "i \<noteq> 0"
    then have "flt (fillna NInf (f (fr ! 0))) (fillna NInf (f (fr ! i)))" using i(3) by simp
    moreover have "f (fr ! 0) = v" "f (fr ! i) = v" using cst i(1) ne by simp_all
    ultimately show False using flt_irrefl by simp
  qed
  then show ?thesis using i(2) ne by (simp add: hd_conv_nth)
qed

lemma map2_keeps:
  assumes "length fr = length s" and "\<And>r p. g (h r p) = g r"
  shows "map g (map (\<lambda>(r, p). h r p) (zip fr s)) = map g fr"
  using assms(1) by (induction fr s rule: list_induct2) (simp_all add: assms(2))

lemma add_aligned_keeps:
  assumes "add_aligned c fr s = Inr fr'"
  shows "map stamp fr' = map stamp fr"
    and "c = ColPV \<Longrightarrow> map Load fr' = map Load fr"
proof -
  have len: "map stamp fr = map fst s \<Longrightarrow> length fr = length s"
    using length_map by metis
  have st: "\<And>v r. stamp (set_col c v r) = stamp r" by (cases c) simp_all
  show "map stamp fr' = map stamp fr"
    using assms len map2_keeps[of fr s stamp "\<lambda>r p. set_col c (fadd (get_col c r) (snd p)) r"]
    by (auto simp: add_aligned_def Let_def st comp_def split: if_splits)
  show "c = ColPV \<Longrightarrow> map Load fr' = map Load fr"
    using assms len map2_keeps[of fr s Load "\<lambda>r p. set_col ColPV (fadd (get_col ColPV r) (snd p)) r"]
    by (auto simp: add_aligned_def Let_def comp_def split: if_splits)
qed

lemma accumulate_step_PV_zero_load:
  assumes "accumulate_step ColPV fr s = Inr fr'" and "s \<noteq> []"
    and "\<forall>r\<in>set fr. Load r = Fin 0"
  shows "fr' \<noteq> [] \<and> (\<forall>r\<in>set fr'. Load r = Fin 0)"
proof (cases "fr = []")
  case True
  then show ?thesis using assms(1,2)
    by (auto simp: accumulate_step_def replace_nan_def set_first_def fillna_def)
next
  case False
  then have a: "add_aligned ColPV fr s = Inr fr'" using assms(1) by (simp add: accumulate_step_def)
  from add_aligned_keeps[OF a] have m: "map Load fr' = map Load fr" by simp
  then have "length fr' = length fr" using length_map by metis
  then have ne: "fr' \<noteq> []" using False by auto
  have "set (map Load fr') = set (map Load fr)" using m by simp
  then have "Load ` set fr' = Load ` set fr" by simp
  then have "\<forall>r\<in>set fr'. Load r = Fin 0" using assms(3) by (metis imageE imageI)
  with ne show ?thesis by simp
qed

lemma accumulate_PV_zero_load:
  "accumulate dss st ColPV ds shapes fr = Inr fr' \<Longrightarrow> fr = [] \<longrightarrow> ds \<noteq> []
     \<Longrightarrow> \<forall>r\<in>set fr. Load r = Fin 0 \<Longrightarrow> fr' \<noteq> [] \<and> (\<forall>r\<in>set fr'. Load r = Fin 0)"
proof (induction ds arbitrary: shapes fr)
  case Nil
  then show ?case by simp
next
  case (Cons d ds)
  from Cons.prems(1) obtain shapes' df s fr1 where
    h: "scaled_column df (rating d) = Inr s" "accumulate_step ColPV fr s = Inr fr1"
       "accumulate dss st ColPV ds shapes' fr1 = Inr fr'"
    by (auto split: sum.splits option.splits)
  have "s \<noteq> []" using h(1) by (auto simp: scaled_column_def split: if_splits)
  from accumulate_step_PV_zero_load[OF h(2) this Cons.prems(3)]
  have fr1: "fr1 \<noteq> []" "\<forall>r\<in>set fr1. Load r = Fin 0" by simp_all
  from Cons.IH[OF h(3) _ fr1(2)] fr1(1) show ?case by simp
qed

lemma pv_only_aggregate:
  "aggregate_profiles pv_only_circuit (at_hour 8) =
     Inr [\<lparr>stamp = at_hour 8, Load = Fin 0, PV = Fin 1\<rparr>,
          \<lparr>stamp = at_hour 9, Load = Fin 0, PV = Fin 4\<rparr>,
          \<lparr>stamp = at_hour 10, Load = Fin 0, PV = Fin 5\<rparr>,
          \<lparr>stamp = at_hour 11, Load = Fin 0, PV = Fin (15 / 10)\<rparr>]"
  by (simp add: eval_defs pv_only_circuit_def)

lemma pv_only_returned:
  "returned (get_snapshot_timepoint pv_only_circuit (at_hour 8) MAX_LOAD ''out.json'')
     = Inr (Time (at_hour 8))"
  by (simp add: eval_defs pv_only_circuit_def)

text \<open>
  Claim C5, as the code has it. When the 08:00 to 17:00 restriction of the aggregate profile
  has no rows (a profile without rows included) and the mode is not rejected, the call ends
  in the exception pandas raises for a reduction over an empty series (a ValueError; the
  module has no NoDataError) and writes no report. A circuit without loads but with PV
  systems does not fail on that account: its Load column is zero at every timestamp, and
  when the window has rows the call with mode \<open>max_load\<close> returns the first timestamp of
  the profile.
\<close>

theorem empty_window_fails:
  "(aggregate_profiles dss st = Inr fr \<and> between_time fr = []
      \<and> \<not> (mode = NONE \<and> PVsystems dss \<noteq> []) \<longrightarrow>
      returned (get_snapshot_timepoint dss st mode out) = Inl PandasError
      \<and> written (get_snapshot_timepoint dss st mode out) = None)
   \<and> (aggregate_profiles dss st = Inr fr \<and> Loads dss = [] \<and> PVsystems dss \<noteq> [] \<longrightarrow>
      fr \<noteq> [] \<and> (\<forall>r\<in>set fr. Load r = Fin 0)
      \<and> (between_time fr \<noteq> [] \<longrightarrow>
           returned (get_snapshot_timepoint dss st MAX_LOAD out) = Inr (Time (stamp (hd fr)))))"
proof -
  have a: "returned (get_snapshot_timepoint dss st mode out) = Inl PandasError
      \<and> written (get_snapshot_timepoint dss st mode out) = None"
    if h: "aggregate_profiles dss st = Inr fr" "between_time fr = []"
      "\<not> (mode = NONE \<and> PVsystems dss \<noteq> [])"
  proof -
    have "\<exists>cn. column_of_mode (fst (resolve_mode mode (PVsystems dss))) = Inr cn"
      using h(3) by (cases mode; cases "PVsystems dss = []") (simp_all add: resolve_mode_def)
    then obtain cn where cn: "column_of_mode (fst (resolve_mode mode (PVsystems dss))) = Inr cn"
      by blast
    show ?thesis
      using cn h(1) empty_window_timepoints[OF h(2)] by (simp add: call_unfolded)
  qed
  have b: "fr \<noteq> [] \<and> (\<forall>r\<in>set fr. Load r = Fin 0)
      \<and> (between_time fr \<noteq> [] \<longrightarrow>
           returned (get_snapshot_timepoint dss st MAX_LOAD out) = Inr (Time (stamp (hd fr))))"
    if h: "aggregate_profiles dss st = Inr fr" "Loads dss = []" "PVsystems dss \<noteq> []"
  proof -
    have acc: "accumulate (LoadShapes dss) st ColPV (PVsystems dss) Map.empty [] = Inr fr"
      using h(1,2) by (auto simp: aggregate_profiles_def split: sum.splits)
    from accumulate_PV_zero_load[OF acc] h(3)
    have z: "fr \<noteq> []" "\<forall>r\<in>set fr. Load r = Fin 0" by simp_all
    have r: "returned (get_snapshot_timepoint dss st MAX_LOAD out) = Inr (Time (stamp (hd fr)))"
      if w: "between_time fr \<noteq> []"
    proof -
      from nonempty_window_timepoints[OF w] obtain tps where
        tps: "timepoints_of (PVsystems dss \<noteq> []) fr = Inr tps" by blast
      have "idxmax (column Load fr) = Inr (Time (stamp (hd fr)))"
        using idxmax_constant[OF z(1) z(2)] by simp
      then have "map_of tps ''Max Load'' = Some (Time (stamp (hd fr)))"
        using timepoints_of_Load(1,3)[OF tps] by auto
      then show ?thesis using h(1,3) tps by (simp add: call_unfolded resolve_mode_def)
    qed
    from z r show ?thesis by blast
  qed
  from a b show ?thesis by blast
qed

theorem empty_window_fails_witness:
  "returned (get_snapshot_timepoint scenario_circuit (at_hour 0) MAX_LOAD ''out.json'')
     = Inl PandasError
   \<and> written (get_snapshot_timepoint scenario_circuit (at_hour 0) MAX_LOAD ''out.json'') = None
   \<and> returned (get_snapshot_timepoint pv_only_circuit (at_hour 8) MAX_LOAD ''out.json'')
       = Inr (Time (at_hour 8))"
proof -
  have h1: "aggregate_profiles scenario_circuit (at_hour 0) = Inr scenario_frame
      \<and> between_time scenario_frame = []
      \<and> \<not> (MAX_LOAD = NONE \<and> PVsystems scenario_circuit \<noteq> [])"
    by (simp add: eval_defs scenario_circuit_def scenario_frame_def)
  let ?fr = "[\<lparr>stamp = at_hour 8, Load = Fin 0, PV = Fin 1\<rparr>,
          \<lparr>stamp = at_hour 9, Load = Fin 0, PV = Fin 4\<rparr>,
          \<lparr>stamp = at_hour 10, Load = Fin 0, PV = Fin 5\<rparr>,
          \<lparr>stamp = at_hour 11, Load = Fin 0, PV = Fin (15 / 10)\<rparr>]"
  have h2: "aggregate_profiles pv_only_circuit (at_hour 8) = Inr ?fr
      \<and> Loads pv_only_circuit = [] \<and> PVsystems pv_only_circuit \<noteq> []"
    by (simp add: pv_only_aggregate) (simp add: pv_only_circuit_def)
  have h3: "between_time ?fr \<noteq> []"
    by (simp add: between_time_def in_window_def time_of_day_def at_hour_def)
  have s: "stamp (hd ?fr) = at_hour 8" by simp
  from empty_window_fails[of scenario_circuit "at_hour 0" scenario_frame MAX_LOAD "''out.json''"]
    h1
  have p1: "returned (get_snapshot_timepoint scenario_circuit (at_hour 0) MAX_LOAD ''out.json'')
     = Inl PandasError
   \<and> written (get_snapshot_timepoint scenario_circuit (at_hour 0) MAX_LOAD ''out.json'') = None"
    by blast
  from empty_window_fails[of pv_only_circuit "at_hour 8" ?fr MAX_LOAD "''out.json''"] h2 h3
  have "returned (get_snapshot_timepoint pv_only_circuit (at_hour 8) MAX_LOAD ''out.json'')
       = Inr (Time (stamp (hd ?fr)))"
    by blast
  then show ?thesis using p1 s by simp
qed

theorem zero_loads_counterexample:
  "Loads pv_only_circuit = []
   \<and> aggregate_profiles pv_only_circuit (at_hour 8) =
       Inr [\<lparr>stamp = at_hour 8, Load = Fin 0, PV = Fin 1\<rparr>,
            \<lparr>stamp = at_hour 9, Load = Fin 0, PV = Fin 4\<rparr>,
            \<lparr>stamp = at_hour 10, Load = Fin 0, PV = Fin 5\<rparr>,
            \<lparr>stamp = at_hour 11, Load = Fin 0, PV = Fin (15 / 10)\<rparr>]
   \<and> returned (get_snapshot_timepoint pv_only_circuit (at_hour 8) MAX_LOAD ''out.json'')
       = Inr (Time (at_hour 8))"
  by (simp add: pv_only_aggregate pv_only_returned) (simp add: pv_only_circuit_def)

subsection \<open>A zero load under the PV to load ratio\<close>

lemma idxmax_Missing: "idxmax s = Inr Missing \<Longrightarrow> list_all (\<lambda>p. snd p = NaN) s"
  by (auto simp: idxmax_def split: list.splits if_splits)

lemma not_flt_PInf: "x \<noteq> NaN \<Longrightarrow> \<not> flt x PInf \<Longrightarrow> x = PInf"
  by (cases x) auto

lemma fillna_NInf_PInf: "fillna NInf v = PInf \<longleftrightarrow> v = PInf"
  by (auto simp: fillna_def)

lemma zero_load_aggregate:
  "aggregate_profiles zero_load_circuit (at_hour 8) =
     Inr [\<lparr>stamp = at_hour 8, Load = Fin 5, PV = Fin 1\<rparr>,
          \<lparr>stamp = at_hour 9, Load = Fin 0, PV = Fin 4\<rparr>,
          \<lparr>stamp = at_hour 10, Load = Fin 5, PV = Fin 5\<rparr>,
          \<lparr>stamp = at_hour 11, Load = Fin 5, PV = Fin (15 / 10)\<rparr>]"
  by (simp add: eval_defs zero_load_circuit_def)

lemma zero_load_returned:
  "returned (get_snapshot_timepoint zero_load_circuit (at_hour 8) MAX_PV_LOAD_RATIO ''out.json'')
     = Inr (Time (at_hour 9))"
  by (simp add: eval_defs zero_load_circuit_def)

text \<open>
  Claim C4, as the code has it. When, at a timestamp inside the daily window, the Load is
  zero and the PV is positive, the ratio there is +infinity, the candidates are all computed
  (nothing raises), and the point is not excluded: \<open>Max PV to Load Ratio\<close> is a timestamp
  of the window whose ratio is +infinity, no later than the zero-load timestamp.
\<close>

theorem zero_load_ratio_selected:
  assumes r: "r \<in> set fr" and win: "in_window (stamp r)"
    and ld: "Load r = Fin 0" and pv: "PV r = Fin p" and p: "0 < p"
    and srt: "sorted (map stamp fr)"
  shows "fdiv (PV r) (Load r) = PInf
    \<and> (\<exists>tps r'. timepoints_of True fr = Inr tps
         \<and> map_of tps ''Max PV to Load Ratio'' = Some (Time (stamp r'))
         \<and> r' \<in> set fr \<and> in_window (stamp r') \<and> stamp r' \<le> stamp r
         \<and> fdiv (PV r') (Load r') = PInf)"
proof -
  let ?D = "\<lambda>r. \<lparr>stamp = stamp r, Load = Load r, PV = PV r,
                 PV_to_Load_Ratio = fdiv (PV r) (Load r),
                 PV_minus_Load = fsub (PV r) (Load r)\<rparr>"
  have inf: "fdiv (PV r) (Load r) = PInf" using ld pv p by (simp add: of_sign_def)
  have w: "between_time fr \<noteq> []" using r win by (auto simp: between_time_def filter_empty_conv)
  from nonempty_window_timepoints[OF w] obtain tps where
    tps: "timepoints_of True fr = Inr tps" by blast
  from timepoints_of_Inr[OF tps] obtain b where
    b: "idxmax (column PV_to_Load_Ratio (between_time (add_derived fr))) = Inr b"
       "map_of tps ''Max PV to Load Ratio'' = Some b"
    by auto
  have mem: "(stamp r, PInf) \<in> set (column PV_to_Load_Ratio (between_time (add_derived fr)))"
  proof -
    have "?D r \<in> set (between_time (add_derived fr))"
      using r win by (auto simp: between_time_def add_derived_def)
    then have "(stamp (?D r), PV_to_Load_Ratio (?D r))
        \<in> set (column PV_to_Load_Ratio (between_time (add_derived fr)))"
      by (force simp: column_def)
    then show ?thesis using inf by simp
  qed
  have "b \<noteq> Missing"
  proof
    assume "b = Missing"
    then have "list_all (\<lambda>p. snd p = NaN) (column PV_to_Load_Ratio (between_time (add_derived fr)))"
      using b(1) idxmax_Missing by simp
    then show False using mem by (auto simp: list_all_iff)
  qed
  then obtain t where t: "b = Time t" by (cases b) auto
  from derived_window_max[of PV_to_Load_Ratio fr t "\<lambda>r. fdiv (PV r) (Load r)"] b(1) t srt
  obtain r' where r': "r' \<in> set fr" "stamp r' = t" "in_window t"
      "\<forall>r''\<in>set fr. in_window (stamp r'') \<longrightarrow>
         \<not> flt (fillna NInf (fdiv (PV r') (Load r'))) (fillna NInf (fdiv (PV r'') (Load r'')))
       \<and> (fillna NInf (fdiv (PV r'') (Load r'')) = fillna NInf (fdiv (PV r') (Load r'))
            \<longrightarrow> t \<le> stamp r'')"
    by auto
  from r'(4) r win inf have
    best: "\<not> flt (fillna NInf (fdiv (PV r') (Load r'))) PInf"
    and tie: "PInf = fillna NInf (fdiv (PV r') (Load r')) \<longrightarrow> t \<le> stamp r"
    by (auto simp: fillna_NInf_PInf fillna_def)
  have fp: "fillna NInf (fdiv (PV r') (Load r')) = PInf"
    using not_flt_PInf[OF _ best] by (simp add: fillna_not_NaN)
  then have inf': "fdiv (PV r') (Load r') = PInf" by (simp add: fillna_NInf_PInf)
  have le: "t \<le> stamp r" using tie fp by simp
  from inf tps b(2) t r' inf' le show ?thesis by auto
qed

theorem zero_load_ratio_selected_witness:
  "timepoints_of True dawn_frame =
     Inr [(''Max Load'', Time (at_hour 8)), (''Max PV to Load Ratio'', Time (at_hour 9)),
          (''Max PV minus Load'', Time (at_hour 9)), (''Max PV'', Time (at_hour 9)),
          (''Min Load'', Time (at_hour 9)), (''Min Daytime Load'', Time (at_hour 9))]
   \<and> fdiv (PV (dawn_frame ! 2)) (Load (dawn_frame ! 2)) = PInf"
proof -
  have h1: "dawn_frame ! 2 \<in> set dawn_frame" by (simp add: dawn_frame_def)
  have h2: "in_window (stamp (dawn_frame ! 2))"
    by (simp add: dawn_frame_def in_window_def time_of_day_def at_hour_def)
  have h3: "Load (dawn_frame ! 2) = Fin 0" by (simp add: dawn_frame_def)
  have h4: "PV (dawn_frame ! 2) = Fin 4" by (simp add: dawn_frame_def)
  have h5: "(0::rat) < 4" by simp
  have h6: "sorted (map stamp dawn_frame)" by (simp add: dawn_frame_def at_hour_def)
  from zero_load_ratio_selected[OF h1 h2 h3 h4 h5 h6] dawn_timepoints show ?thesis by simp
qed

theorem zero_load_ratio_counterexample:
  "aggregate_profiles zero_load_circuit (at_hour 8) =
     Inr [\<lparr>stamp = at_hour 8, Load = Fin 5, PV = Fin 1\<rparr>,
          \<lparr>stamp = at_hour 9, Load = Fin 0, PV = Fin 4\<rparr>,
          \<lparr>stamp = at_hour 10, Load = Fin 5, PV = Fin 5\<rparr>,
          \<lparr>stamp = at_hour 11, Load = Fin 5, PV = Fin (15 / 10)\<rparr>]
   \<and> fdiv (Fin 4) (Fin 0) = PInf
   \<and> returned (get_snapshot_timepoint zero_load_circuit (at_hour 8) MAX_PV_LOAD_RATIO ''out.json'')
       = Inr (Time (at_hour 9))"
  by (simp add: zero_load_aggregate zero_load_returned of_sign_def)

subsection \<open>The per-shape cache\<close>

lemma materialize_cached:
  assumes inv: "\<forall>n df. shapes n = Some df \<longrightarrow>
      (\<exists>sh. dss n = Some sh \<and> create_loadshape_pmult_dataframe st sh = Inr df)"
    and sh: "dss name = Some sh"
  shows "create_loadshape_pmult_dataframe st sh = Inl e \<Longrightarrow>
           materialize dss st name shapes = Inl e"
    and "create_loadshape_pmult_dataframe st sh = Inr df \<Longrightarrow>
           \<exists>shapes'. materialize dss st name shapes = Inr shapes' \<and> shapes' name = Some df
             \<and> (\<forall>n df. shapes' n = Some df \<longrightarrow>
                   (\<exists>sh. dss n = Some sh \<and> create_loadshape_pmult_dataframe st sh = Inr df))"
proof -
  have hit: "\<And>a. shapes name = Some a \<Longrightarrow> create_loadshape_pmult_dataframe st sh = Inr a"
  proof -
    fix a assume "shapes name = Some a"
    with inv obtain sh' where "dss name = Some sh'"
      "create_loadshape_pmult_dataframe st sh' = Inr a" by blast
    then show "create_loadshape_pmult_dataframe st sh = Inr a" using sh by simp
  qed
  show "create_loadshape_pmult_dataframe st sh = Inl e \<Longrightarrow>
           materialize dss st name shapes = Inl e"
    using sh hit by (cases "shapes name") (auto simp: materialize_def)
  show "create_loadshape_pmult_dataframe st sh = Inr df \<Longrightarrow>
           \<exists>shapes'. materialize dss st name shapes = Inr shapes' \<and> shapes' name = Some df
             \<and> (\<forall>n df. shapes' n = Some df \<longrightarrow>
                   (\<exists>sh. dss n = Some sh \<and> create_loadshape_pmult_dataframe st sh = Inr df))"
    using inv sh hit by (cases "shapes name") (auto simp: materialize_def)
qed

lemma accumulate_cache_transparent:
  assumes "\<forall>n df. shapes n = Some df \<longrightarrow>
      (\<exists>sh. dss n = Some sh \<and> create_loadshape_pmult_dataframe st sh = Inr df)"
  shows "accumulate dss st c ds shapes fr = accumulate_uncached dss st c ds fr"
  using assms
proof (induction ds arbitrary: shapes fr)
  case Nil
  then show ?case by simp
next
  case (Cons d ds)
  show ?case
  proof (cases "dss (yearly d)")
    case None
    then show ?thesis by (simp add: materialize_def)
  next
    case (Some sh)
    show ?thesis
    proof (cases "create_loadshape_pmult_dataframe st sh")
      case (Inl e)
      from materialize_cached(1)[OF Cons.prems Some Inl] show ?thesis
        using Some Inl by simp
    next
      case (Inr df)
      from materialize_cached(2)[OF Cons.prems Some Inr] obtain shapes' where
        m: "materialize dss st (yearly d) shapes = Inr shapes'" "shapes' (yearly d) = Some df"
          "\<forall>n df. shapes' n = Some df \<longrightarrow>
              (\<exists>sh. dss n = Some sh \<and> create_loadshape_pmult_dataframe st sh = Inr df)"
        by blast
      show ?thesis using Some Inr m(1,2) Cons.IH[OF m(3)]
        by (simp split: sum.split)
    qed
  qed
qed

text \<open>
  Claim C10. The engine's shapes do not change during a call, so the cache only saves work:
  for every circuit and start time, the aggregate profile built with the two per-shape
  caches (or the exception that ends the aggregation) is the one built when every device
  materializes its shape on its own, and so are all candidates computed from it.
\<close>

theorem cache_transparent:
  "aggregate_profiles c st = aggregate_profiles_uncached c st
   \<and> (case aggregate_profiles c st of Inl e \<Rightarrow> Inl e | Inr fr \<Rightarrow> timepoints_of pv fr)
     = (case aggregate_profiles_uncached c st of Inl e \<Rightarrow> Inl e | Inr fr \<Rightarrow> timepoints_of pv fr)"
proof -
  have e: "\<And>col ds fr. accumulate (LoadShapes c) st col ds Map.empty fr
      = accumulate_uncached (LoadShapes c) st col ds fr"
    by (rule accumulate_cache_transparent) simp
  have "aggregate_profiles c st = aggregate_profiles_uncached c st"
    by (simp add: aggregate_profiles_def aggregate_profiles_uncached_def e split: sum.split)
  then show ?thesis by simp
qed

subsection \<open>The index of an aggregate profile is in time order\<close>

lemma indices_loop_lower: "0 \<le> iv \<Longrightarrow> x \<in> set (indices_loop n t iv) \<Longrightarrow> t \<le> x"
proof (induction n arbitrary: t)
  case 0
  then show ?case by simp
next
  case (Suc n)
  then show ?case by fastforce
qed

lemma indices_loop_sorted: "0 \<le> iv \<Longrightarrow> sorted (indices_loop n t iv)"
proof (induction n arbitrary: t)
  case 0
  then show ?case by simp
next
  case (Suc n)
  have "\<forall>x\<in>set (indices_loop n (t + iv) iv). t \<le> x"
    using indices_loop_lower[OF Suc.prems, of _ n "t + iv"] Suc.prems by fastforce
  then show ?case using Suc by simp
qed

lemma create_sorted:
  "create_loadshape_pmult_dataframe st sh = Inr df \<Longrightarrow> sorted (map fst df)"
  by (auto simp: create_loadshape_pmult_dataframe_def Let_def indices_loop_sorted
      split: if_splits)

lemma scaled_column_index: "scaled_column df v = Inr s \<Longrightarrow> map fst s = map fst df"
  by (auto simp: scaled_column_def case_prod_unfold split: if_splits)

lemma accumulate_step_sorted:
  assumes "accumulate_step c fr s = Inr fr'" and "sorted (map fst s)" and "sorted (map stamp fr)"
  shows "sorted (map stamp fr')"
proof (cases "fr = []")
  case True
  have st: "\<And>v r. stamp (set_col c v r) = stamp r" by (cases c) simp_all
  have "map stamp fr' = map fst s"
    using assms(1) True
    by (auto simp: accumulate_step_def set_first_def replace_nan_def st case_prod_unfold comp_def)
  then show ?thesis using assms(2) by simp
next
  case False
  then have "add_aligned c fr s = Inr fr'" using assms(1) by (simp add: accumulate_step_def)
  from add_aligned_keeps(1)[OF this] show ?thesis using assms(3) by simp
qed

lemma accumulate_uncached_sorted:
  "accumulate_uncached dss st c ds fr = Inr fr' \<Longrightarrow> sorted (map stamp fr)
     \<Longrightarrow> sorted (map stamp fr')"
proof (induction ds arbitrary: fr)
  case Nil
  then show ?case by simp
next
  case (Cons d ds)
  from Cons.prems(1) obtain sh df s fr1 where
    h: "create_loadshape_pmult_dataframe st sh = Inr df" "scaled_column df (rating d) = Inr s"
       "accumulate_step c fr s = Inr fr1" "accumulate_uncached dss st c ds fr1 = Inr fr'"
    by (auto split: sum.splits option.splits)
  have "sorted (map fst s)" using create_sorted[OF h(1)] scaled_column_index[OF h(2)] by simp
  from accumulate_step_sorted[OF h(3) this Cons.prems(2)] Cons.IH[OF h(4)] show ?case by simp
qed

lemma aggregate_profiles_sorted:
  assumes "aggregate_profiles c st = Inr fr"
  shows "sorted (map stamp fr)"
proof -
  have e: "\<And>col ds fr. accumulate (LoadShapes c) st col ds Map.empty fr
      = accumulate_uncached (LoadShapes c) st col ds fr"
    by (rule accumulate_cache_transparent) simp
  from assms obtain fr1 where
    h: "accumulate_uncached (LoadShapes c) st ColPV (PVsystems c) [] = Inr fr1"
       "accumulate_uncached (LoadShapes c) st ColLoad (Loads c) fr1 = Inr fr"
    by (auto simp: aggregate_profiles_def e split: sum.splits)
  from accumulate_uncached_sorted[OF h(1)] have "sorted (map stamp fr1)" by simp
  from accumulate_uncached_sorted[OF h(2) this] show ?thesis .
qed

subsection \<open>The load extremes as candidates\<close>

lemma night_loads_aggregate:
  "aggregate_profiles night_loads_circuit (at_hour 0) =
     Inr [\<lparr>stamp = at_hour 0, Load = Fin 5, PV = NaN\<rparr>,
          \<lparr>stamp = at_hour 1, Load = Fin 3, PV = NaN\<rparr>,
          \<lparr>stamp = at_hour 2, Load = Fin 9, PV = NaN\<rparr>,
          \<lparr>stamp = at_hour 3, Load = Fin 1, PV = NaN\<rparr>]"
  by (simp add: eval_defs night_loads_circuit_def)

lemma night_loads_call:
  "get_snapshot_timepoint night_loads_circuit (at_hour 0) MAX_LOAD ''out.json''
     = \<lparr>log = [No_PVSystems_are_present], written = None, returned = Inl PandasError\<rparr>"
  by (simp add: eval_defs night_loads_circuit_def)

lemma loads_only_aggregate:
  "aggregate_profiles loads_only_circuit (at_hour 8) =
     Inr [\<lparr>stamp = at_hour 8, Load = Fin 2, PV = NaN\<rparr>,
          \<lparr>stamp = at_hour 9, Load = Fin 8, PV = NaN\<rparr>,
          \<lparr>stamp = at_hour 10, Load = Fin 10, PV = NaN\<rparr>,
          \<lparr>stamp = at_hour 11, Load = Fin 3, PV = NaN\<rparr>]"
  by (simp add: eval_defs loads_only_circuit_def)

text \<open>
  Claim C1, as the code has it. Take an aggregate profile whose Load values are all defined
  (no NaN), on an index in time order. When at least one of its timestamps is in the 08:00
  to 17:00 window, the selector computes its candidates: \<open>Max Load\<close> is the timestamp of a
  row whose Load is at least every Load of the series, the earliest among the rows with
  that Load, and \<open>Min Load\<close> is the earliest timestamp of the least Load; a call with mode
  \<open>max_load\<close> on a circuit with this profile writes these candidates and returns this
  \<open>Max Load\<close>. When none of its timestamps is in the window, the selector has no candidate
  at all: the reductions over the empty window raise.
\<close>

theorem load_extremes:
  assumes nn: "\<forall>r\<in>set fr. Load r \<noteq> NaN" and srt: "sorted (map stamp fr)"
  shows "(between_time fr \<noteq> [] \<longrightarrow>
      (\<exists>tps i k. timepoints_of pv fr = Inr tps \<and> i < length fr \<and> k < length fr
        \<and> map_of tps ''Max Load'' = Some (Time (stamp (fr ! i)))
        \<and> map_of tps ''Min Load'' = Some (Time (stamp (fr ! k)))
        \<and> (\<forall>j<length fr. fle (Load (fr ! j)) (Load (fr ! i)))
        \<and> (\<forall>j<length fr. Load (fr ! j) = Load (fr ! i) \<longrightarrow> stamp (fr ! i) \<le> stamp (fr ! j))
        \<and> (\<forall>j<length fr. fle (Load (fr ! k)) (Load (fr ! j)))
        \<and> (\<forall>j<length fr. Load (fr ! j) = Load (fr ! k) \<longrightarrow> stamp (fr ! k) \<le> stamp (fr ! j))
        \<and> (\<forall>dss st out. aggregate_profiles dss st = Inr fr \<and> pv = (PVsystems dss \<noteq> []) \<longrightarrow>
              returned (get_snapshot_timepoint dss st MAX_LOAD out) = Inr (Time (stamp (fr ! i)))
            \<and> written (get_snapshot_timepoint dss st MAX_LOAD out)
                = Some \<lparr>dump_data = to_dict_index tps, dump_filename = out,
                        dump_indent = 2\<rparr>)))
   \<and> (between_time fr = [] \<longrightarrow> timepoints_of pv fr = Inl PandasError)"
proof -
  have a: "\<exists>tps i k. timepoints_of pv fr = Inr tps \<and> i < length fr \<and> k < length fr
        \<and> map_of tps ''Max Load'' = Some (Time (stamp (fr ! i)))
        \<and> map_of tps ''Min Load'' = Some (Time (stamp (fr ! k)))
        \<and> (\<forall>j<length fr. fle (Load (fr ! j)) (Load (fr ! i)))
        \<and> (\<forall>j<length fr. Load (fr ! j) = Load (fr ! i) \<longrightarrow> stamp (fr ! i) \<le> stamp (fr ! j))
        \<and> (\<forall>j<length fr. fle (Load (fr ! k)) (Load (fr ! j)))
        \<and> (\<forall>j<length fr. Load (fr ! j) = Load (fr ! k) \<longrightarrow> stamp (fr ! k) \<le> stamp (fr ! j))
        \<and> (\<forall>dss st out. aggregate_profiles dss st = Inr fr \<and> pv = (PVsystems dss \<noteq> []) \<longrightarrow>
              returned (get_snapshot_timepoint dss st MAX_LOAD out) = Inr (Time (stamp (fr ! i)))
            \<and> written (get_snapshot_timepoint dss st MAX_LOAD out)
                = Some \<lparr>dump_data = to_dict_index tps, dump_filename = out,
                        dump_indent = 2\<rparr>)"
    if w: "between_time fr \<noteq> []"
  proof -
    have ne: "fr \<noteq> []" using w by (auto simp: between_time_def)
    from nonempty_window_timepoints[OF w] obtain tps where
      tps: "timepoints_of pv fr = Inr tps" by blast
    from load_reductions[OF ne nn srt, of pv] obtain i k where
      ik: "i < length fr" "k < length fr"
        "\<forall>tps. timepoints_of pv fr = Inr tps \<longrightarrow>
             map_of tps ''Max Load'' = Some (Time (stamp (fr ! i)))
           \<and> map_of tps ''Min Load'' = Some (Time (stamp (fr ! k)))"
        "\<forall>j<length fr. fle (Load (fr ! j)) (Load (fr ! i))"
        "\<forall>j<length fr. Load (fr ! j) = Load (fr ! i) \<longrightarrow> stamp (fr ! i) \<le> stamp (fr ! j)"
        "\<forall>j<length fr. fle (Load (fr ! k)) (Load (fr ! j))"
        "\<forall>j<length fr. Load (fr ! j) = Load (fr ! k) \<longrightarrow> stamp (fr ! k) \<le> stamp (fr ! j)"
      by blast
    have m: "map_of tps ''Max Load'' = Some (Time (stamp (fr ! i)))"
      and n: "map_of tps ''Min Load'' = Some (Time (stamp (fr ! k)))"
      using ik(3) tps by simp_all
    have call: "\<forall>dss st out. aggregate_profiles dss st = Inr fr \<and> pv = (PVsystems dss \<noteq> []) \<longrightarrow>
              returned (get_snapshot_timepoint dss st MAX_LOAD out) = Inr (Time (stamp (fr ! i)))
            \<and> written (get_snapshot_timepoint dss st MAX_LOAD out)
                = Some \<lparr>dump_data = to_dict_index tps, dump_filename = out,
                        dump_indent = 2\<rparr>"
    proof (intro allI impI)
      fix dss st out
      assume h: "aggregate_profiles dss st = Inr fr \<and> pv = (PVsystems dss \<noteq> [])"
      have cm: "column_of_mode (fst (resolve_mode MAX_LOAD (PVsystems dss))) = Inr ''Max Load''"
        by (simp add: resolve_mode_def)
      have t: "timepoints_of (PVsystems dss \<noteq> []) fr = Inr tps" using tps h by simp
      show "returned (get_snapshot_timepoint dss st MAX_LOAD out) = Inr (Time (stamp (fr ! i)))
            \<and> written (get_snapshot_timepoint dss st MAX_LOAD out)
                = Some \<lparr>dump_data = to_dict_index tps, dump_filename = out,
                        dump_indent = 2\<rparr>"
        using h cm t m by (simp add: call_unfolded)
    qed
    from tps ik(1,2,4,5,6,7) m n call show ?thesis by blast
  qed
  have b: "timepoints_of pv fr = Inl PandasError" if "between_time fr = []"
    using empty_window_timepoints[OF that] .
  from a b show ?thesis by blast
qed

theorem load_extremes_witness:
  "returned (get_snapshot_timepoint loads_only_circuit (at_hour 8) MAX_LOAD ''out.json'')
     = Inr (Time (at_hour 10))
   \<and> (\<exists>tps i. timepoints_of False
          [\<lparr>stamp = at_hour 8, Load = Fin 2, PV = NaN\<rparr>,
           \<lparr>stamp = at_hour 9, Load = Fin 8, PV = NaN\<rparr>,
           \<lparr>stamp = at_hour 10, Load = Fin 10, PV = NaN\<rparr>,
           \<lparr>stamp = at_hour 11, Load = Fin 3, PV = NaN\<rparr>] = Inr tps
        \<and> map_of tps ''Max Load'' = Some (Time (at_hour 10))
        \<and> i < 4
        \<and> returned (get_snapshot_timepoint loads_only_circuit (at_hour 8) MAX_LOAD ''out.json'')
            = Inr (Time (stamp ([\<lparr>stamp = at_hour 8, Load = Fin 2, PV = NaN\<rparr>,
           \<lparr>stamp = at_hour 9, Load = Fin 8, PV = NaN\<rparr>,
           \<lparr>stamp = at_hour 10, Load = Fin 10, PV = NaN\<rparr>,
           \<lparr>stamp = at_hour 11, Load = Fin 3, PV = NaN\<rparr>] ! i))))
   \<and> timepoints_of True scenario_frame = Inl PandasError"
proof -
  let ?fr = "[\<lparr>stamp = at_hour 8, Load = Fin 2, PV = NaN\<rparr>,
           \<lparr>stamp = at_hour 9, Load = Fin 8, PV = NaN\<rparr>,
           \<lparr>stamp = at_hour 10, Load = Fin 10, PV = NaN\<rparr>,
           \<lparr>stamp = at_hour 11, Load = Fin 3, PV = NaN\<rparr>]"
  have h1: "\<forall>r\<in>set ?fr. Load r \<noteq> NaN" by simp
  have h2: "sorted (map stamp ?fr)" by (simp add: at_hour_def)
  have h3: "between_time ?fr \<noteq> []"
    by (simp add: between_time_def in_window_def time_of_day_def at_hour_def)
  have h4: "aggregate_profiles loads_only_circuit (at_hour 8) = Inr ?fr
      \<and> False = (PVsystems loads_only_circuit \<noteq> [])"
    by (simp add: loads_only_aggregate) (simp add: loads_only_circuit_def)
  have g1: "\<forall>r\<in>set scenario_frame. Load r \<noteq> NaN" by (simp add: scenario_frame_def)
  have g2: "sorted (map stamp scenario_frame)" by (simp add: scenario_frame_def at_hour_def)
  have g3: "between_time scenario_frame = []"
    by (simp add: scenario_frame_def between_time_def in_window_def time_of_day_def at_hour_def)
  from load_extremes[OF h1 h2, of False] h3 obtain tps i where
    t: "timepoints_of False ?fr = Inr tps" "i < length ?fr"
      "map_of tps ''Max Load'' = Some (Time (stamp (?fr ! i)))"
      "\<forall>dss st out. aggregate_profiles dss st = Inr ?fr \<and> False = (PVsystems dss \<noteq> []) \<longrightarrow>
              returned (get_snapshot_timepoint dss st MAX_LOAD out) = Inr (Time (stamp (?fr ! i)))
            \<and> written (get_snapshot_timepoint dss st MAX_LOAD out)
                = Some \<lparr>dump_data = to_dict_index tps, dump_filename = out,
                        dump_indent = 2\<rparr>"
    by blast
  from t(4) h4 have r: "returned (get_snapshot_timepoint loads_only_circuit (at_hour 8) MAX_LOAD ''out.json'')
      = Inr (Time (stamp (?fr ! i)))"
    by blast
  have e: "returned (get_snapshot_timepoint loads_only_circuit (at_hour 8) MAX_LOAD ''out.json'')
     = Inr (Time (at_hour 10))"
    by (simp add: loads_only_call)
  have s: "stamp (?fr ! i) = at_hour 10" using r e by simp
  have i4: "i < 4" using t(2) by simp
  from load_extremes[OF g1 g2, of True] g3
  have n: "timepoints_of True scenario_frame = Inl PandasError" by blast
  from e t(1) t(3) s i4 r n show ?thesis by auto
qed

theorem load_extremes_counterexample:
  "aggregate_profiles night_loads_circuit (at_hour 0) =
     Inr [\<lparr>stamp = at_hour 0, Load = Fin 5, PV = NaN\<rparr>,
          \<lparr>stamp = at_hour 1, Load = Fin 3, PV = NaN\<rparr>,
          \<lparr>stamp = at_hour 2, Load = Fin 9, PV = NaN\<rparr>,
          \<lparr>stamp = at_hour 3, Load = Fin 1, PV = NaN\<rparr>]
   \<and> get_snapshot_timepoint night_loads_circuit (at_hour 0) MAX_LOAD ''out.json''
       = \<lparr>log = [No_PVSystems_are_present], written = None, returned = Inl PandasError\<rparr>"
  by (simp add: night_loads_aggregate night_loads_call)

subsection \<open>The scenario of one PV system and one load\<close>

lemma scenario_no_candidates: "timepoints_of True scenario_frame = Inl PandasError"
  by (simp add: eval_defs scenario_frame_def)

text \<open>
  Claim C8, as the code has it. One PV system (Pmpp 5, shape S1) and one load (kW 10, shape
  S1), with S1 = [0.2, 0.8, 1.0, 0.3] hourly from 2020-01-01T00:00: the aggregate profile has
  Load = [2, 8, 10, 3] and PV = [1, 4, 5, 1.5] at 00:00, 01:00, 02:00, 03:00, and the
  reduction of line 116 finds the Load maximum at 02:00. The selector has no \<open>Max Load\<close>
  candidate on this input all the same: no timestamp is in the 08:00 to 17:00 window, the
  reduction of line 118 raises, and a call with mode \<open>max_load\<close> logs nothing, writes nothing
  and ends in that exception.
\<close>

theorem scenario_profile_and_max_load:
  "aggregate_profiles scenario_circuit (at_hour 0) = Inr scenario_frame
   \<and> map stamp scenario_frame = [at_hour 0, at_hour 1, at_hour 2, at_hour 3]
   \<and> map Load scenario_frame = [Fin 2, Fin 8, Fin 10, Fin 3]
   \<and> map PV scenario_frame = [Fin 1, Fin 4, Fin 5, Fin (15 / 10)]
   \<and> idxmax (column Load scenario_frame) = Inr (Time (at_hour 2))
   \<and> between_time scenario_frame = []
   \<and> timepoints_of True scenario_frame = Inl PandasError
   \<and> get_snapshot_timepoint scenario_circuit (at_hour 0) MAX_LOAD out
       = \<lparr>log = [], written = None, returned = Inl PandasError\<rparr>"
proof -
  have a: "aggregate_profiles scenario_circuit (at_hour 0) = Inr scenario_frame
   \<and> map stamp scenario_frame = [at_hour 0, at_hour 1, at_hour 2, at_hour 3]
   \<and> map Load scenario_frame = [Fin 2, Fin 8, Fin 10, Fin 3]
   \<and> map PV scenario_frame = [Fin 1, Fin 4, Fin 5, Fin (15 / 10)]
   \<and> idxmax (column Load scenario_frame) = Inr (Time (at_hour 2))"
    by (simp add: eval_defs scenario_circuit_def scenario_frame_def)
  have b: "between_time scenario_frame = []"
    by (simp add: scenario_frame_def between_time_def in_window_def time_of_day_def at_hour_def)
  from a b scenario_no_candidates scenario_call_fails[of out] show ?thesis by simp
qed

theorem scenario_no_candidate_counterexample:
  "aggregate_profiles scenario_circuit (at_hour 0) = Inr scenario_frame
   \<and> timepoints_of True scenario_frame = Inl PandasError
   \<and> returned (get_snapshot_timepoint scenario_circuit (at_hour 0) MAX_LOAD ''out.json'')
       = Inl PandasError
   \<and> written (get_snapshot_timepoint scenario_circuit (at_hour 0) MAX_LOAD ''out.json'') = None"
proof -
  have a: "aggregate_profiles scenario_circuit (at_hour 0) = Inr scenario_frame"
    by (simp add: eval_defs scenario_circuit_def scenario_frame_def)
  from a scenario_no_candidates scenario_call_fails[of "''out.json''"] show ?thesis by simp
qed

end
